theory Spec2Isabelle
  imports Complex_Main "HOL-Library.Word" "HOL-Library.Monad_Syntax"
begin

section \<open>The pool-allocated store of vtkReebGraph.h\<close>

text \<open>
  The header \<^verbatim>\<open>Filtering/vtkReebGraph.h\<close> declares three tables (nodes, arcs,
  labels), each a C array \<^verbatim>\<open>Buffer\<close> with a free list threaded through one field of
  the free slots, and the macros that work on them. Ids (\<^verbatim>\<open>vtkIdType\<close>) are
  signed integers: \<open>0\<close> is the null id and \<open>-2\<close> marks a cleared slot, so they are
  modelled as \<open>int\<close>. The counters \<^verbatim>\<open>Size\<close>, \<^verbatim>\<open>Number\<close>, \<^verbatim>\<open>FreeZone\<close> are C
  \<^verbatim>\<open>int\<close>s, modelled as \<open>int\<close> as well (they only move by one between bounds of
  the buffer). Scalars (\<^verbatim>\<open>double\<close>) are modelled as \<open>real\<close>: order and
  arithmetic are the exact ones, rounding and NaN are outside the model. A label tag
  (\<^verbatim>\<open>unsigned long long\<close>) is a 64-bit word.

  Dereferencing a null pointer or a pointer outside the buffer has no defined
  behaviour in C++; every macro of the model returns \<open>None\<close> there.
\<close>

record vtkReebNode =
  VertexId :: int
  Value :: real
  ArcDownId :: int
  ArcUpId :: int
  IsFinalized :: bool
  IsCritical :: bool

record vtkReebArc =
  NodeId0 :: int
  ArcUpId0 :: int
  ArcDwId0 :: int
  NodeId1 :: int
  ArcUpId1 :: int
  ArcDwId1 :: int
  LabelId0 :: int
  LabelId1 :: int

type_synonym vtkReebLabelTag = "64 word"

record vtkReebLabel =
  ArcId :: int
  HPrev :: int
  HNext :: int
  label :: vtkReebLabelTag
  VPrev :: int
  VNext :: int

record 'a vtkReebTable =
  Size :: int
  Number :: int
  FreeZone :: int
  Buffer :: "'a list"

record vtkReebGraph =
  MainArcTable :: "vtkReebArc vtkReebTable"
  MainNodeTable :: "vtkReebNode vtkReebTable"
  MainLabelTable :: "vtkReebLabel vtkReebTable"
  MinimumScalarValue :: real
  MaximumScalarValue :: real

text \<open>\<^verbatim>\<open>Buffer + i\<close>, dereferenced: defined inside the array only.\<close>

definition inBuffer :: "'a list \<Rightarrow> int \<Rightarrow> bool" where
  "inBuffer buf i = (0 \<le> i \<and> i < int (length buf))"

definition deref :: "'a list \<Rightarrow> int \<Rightarrow> 'a option" where
  "deref buf i = (if inBuffer buf i then Some (buf ! nat i) else None)"

text \<open>
  \<^verbatim>\<open>vtkReebGraphGetNode(rg, N)\<close> is \<^verbatim>\<open>(!N) ? 0 : Buffer + N\<close>; the model gives what
  dereferencing that pointer reads. The same for arcs and labels.
\<close>

definition vtkReebGraphGetNode :: "vtkReebGraph \<Rightarrow> int \<Rightarrow> vtkReebNode option" where
  "vtkReebGraphGetNode rg N =
     (if N = 0 then None else deref (Buffer (MainNodeTable rg)) N)"

definition vtkReebGraphGetArc :: "vtkReebGraph \<Rightarrow> int \<Rightarrow> vtkReebArc option" where
  "vtkReebGraphGetArc rg A =
     (if A = 0 then None else deref (Buffer (MainArcTable rg)) A)"

definition vtkReebGraphGetLabel :: "vtkReebGraph \<Rightarrow> int \<Rightarrow> vtkReebLabel option" where
  "vtkReebGraphGetLabel rg L =
     (if L = 0 then None else deref (Buffer (MainLabelTable rg)) L)"

text \<open>Writing through such a pointer, once it has been read successfully.\<close>

definition putNode :: "vtkReebGraph \<Rightarrow> int \<Rightarrow> vtkReebNode \<Rightarrow> vtkReebGraph" where
  "putNode rg N n =
     rg\<lparr>MainNodeTable := (MainNodeTable rg)
          \<lparr>Buffer := (Buffer (MainNodeTable rg))[nat N := n]\<rparr>\<rparr>"

definition putArc :: "vtkReebGraph \<Rightarrow> int \<Rightarrow> vtkReebArc \<Rightarrow> vtkReebGraph" where
  "putArc rg A a =
     rg\<lparr>MainArcTable := (MainArcTable rg)
          \<lparr>Buffer := (Buffer (MainArcTable rg))[nat A := a]\<rparr>\<rparr>"

definition putLabel :: "vtkReebGraph \<Rightarrow> int \<Rightarrow> vtkReebLabel \<Rightarrow> vtkReebGraph" where
  "putLabel rg L l =
     rg\<lparr>MainLabelTable := (MainLabelTable rg)
          \<lparr>Buffer := (Buffer (MainLabelTable rg))[nat L := l]\<rparr>\<rparr>"

text \<open>\<^verbatim>\<open>p->field = v\<close> for \<^verbatim>\<open>p = vtkReebGraphGetNode(rg, N)\<close>, and so on.\<close>

definition modNode ::
  "vtkReebGraph \<Rightarrow> int \<Rightarrow> (vtkReebNode \<Rightarrow> vtkReebNode) \<Rightarrow> vtkReebGraph option" where
  "modNode rg N f =
     (case vtkReebGraphGetNode rg N of None \<Rightarrow> None | Some n \<Rightarrow> Some (putNode rg N (f n)))"

definition modArc ::
  "vtkReebGraph \<Rightarrow> int \<Rightarrow> (vtkReebArc \<Rightarrow> vtkReebArc) \<Rightarrow> vtkReebGraph option" where
  "modArc rg A f =
     (case vtkReebGraphGetArc rg A of None \<Rightarrow> None | Some a \<Rightarrow> Some (putArc rg A (f a)))"

definition modLabel ::
  "vtkReebGraph \<Rightarrow> int \<Rightarrow> (vtkReebLabel \<Rightarrow> vtkReebLabel) \<Rightarrow> vtkReebGraph option" where
  "modLabel rg L f =
     (case vtkReebGraphGetLabel rg L of None \<Rightarrow> None | Some l \<Rightarrow> Some (putLabel rg L (f l)))"

text \<open>What \<^verbatim>\<open>memset(p, 0, sizeof(*p))\<close> leaves in a slot.\<close>

definition zeroNode :: vtkReebNode where
  "zeroNode = \<lparr>VertexId = 0, Value = 0, ArcDownId = 0, ArcUpId = 0,
               IsFinalized = False, IsCritical = False\<rparr>"

definition zeroArc :: vtkReebArc where
  "zeroArc = \<lparr>NodeId0 = 0, ArcUpId0 = 0, ArcDwId0 = 0,
              NodeId1 = 0, ArcUpId1 = 0, ArcDwId1 = 0, LabelId0 = 0, LabelId1 = 0\<rparr>"

definition zeroLabel :: vtkReebLabel where
  "zeroLabel = \<lparr>ArcId = 0, HPrev = 0, HNext = 0, label = 0, VPrev = 0, VNext = 0\<rparr>"

subsection \<open>Clearing and testing slots\<close>

definition vtkReebGraphClearNode :: "vtkReebGraph \<Rightarrow> int \<Rightarrow> vtkReebGraph option" where
  "vtkReebGraphClearNode rg N = modNode rg N (\<lambda>n. n\<lparr>ArcUpId := - 2\<rparr>)"

definition vtkReebGraphClearArc :: "vtkReebGraph \<Rightarrow> int \<Rightarrow> vtkReebGraph option" where
  "vtkReebGraphClearArc rg A = modArc rg A (\<lambda>a. a\<lparr>LabelId1 := - 2\<rparr>)"

definition vtkReebGraphClearLabel :: "vtkReebGraph \<Rightarrow> int \<Rightarrow> vtkReebGraph option" where
  "vtkReebGraphClearLabel rg L = modLabel rg L (\<lambda>l. l\<lparr>HNext := - 2\<rparr>)"

definition vtkReebGraphIsNodeCleared :: "vtkReebGraph \<Rightarrow> int \<Rightarrow> bool option" where
  "vtkReebGraphIsNodeCleared rg N =
     map_option (\<lambda>n. ArcUpId n = - 2) (vtkReebGraphGetNode rg N)"

definition vtkReebGraphIsArcCleared :: "vtkReebGraph \<Rightarrow> int \<Rightarrow> bool option" where
  "vtkReebGraphIsArcCleared rg A =
     map_option (\<lambda>a. LabelId1 a = - 2) (vtkReebGraphGetArc rg A)"

definition vtkReebGraphIsLabelCleared :: "vtkReebGraph \<Rightarrow> int \<Rightarrow> bool option" where
  "vtkReebGraphIsLabelCleared rg L =
     map_option (\<lambda>l. HNext l = - 2) (vtkReebGraphGetLabel rg L)"

subsection \<open>Allocation: popping the free list\<close>

text \<open>
  \<^verbatim>\<open>vtkReebGraphNewNode(rg, N)\<close>: \<^verbatim>\<open>N = FreeZone; FreeZone = GetNode(N)->ArcDownId;
  ++Number; memset(GetNode(N), 0, sizeof(vtkReebNode))\<close>. The free list of the arcs is
  threaded through \<^verbatim>\<open>LabelId0\<close>, that of the labels through \<^verbatim>\<open>ArcId\<close>. The macro
  does not test for an empty free list: with \<^verbatim>\<open>FreeZone = 0\<close> it dereferences the
  null pointer.
\<close>

definition vtkReebGraphNewNode :: "vtkReebGraph \<Rightarrow> (int \<times> vtkReebGraph) option" where
  "vtkReebGraphNewNode rg =
     (let N = FreeZone (MainNodeTable rg) in
      case vtkReebGraphGetNode rg N of
        None \<Rightarrow> None
      | Some n \<Rightarrow>
          let rg1 = rg\<lparr>MainNodeTable := (MainNodeTable rg)\<lparr>FreeZone := ArcDownId n\<rparr>\<rparr>;
              rg2 = rg1\<lparr>MainNodeTable :=
                          (MainNodeTable rg1)\<lparr>Number := Number (MainNodeTable rg1) + 1\<rparr>\<rparr>
          in Some (N, putNode rg2 N zeroNode))"

definition vtkReebGraphNewArc :: "vtkReebGraph \<Rightarrow> (int \<times> vtkReebGraph) option" where
  "vtkReebGraphNewArc rg =
     (let A = FreeZone (MainArcTable rg) in
      case vtkReebGraphGetArc rg A of
        None \<Rightarrow> None
      | Some a \<Rightarrow>
          let rg1 = rg\<lparr>MainArcTable := (MainArcTable rg)\<lparr>FreeZone := LabelId0 a\<rparr>\<rparr>;
              rg2 = rg1\<lparr>MainArcTable :=
                          (MainArcTable rg1)\<lparr>Number := Number (MainArcTable rg1) + 1\<rparr>\<rparr>
          in Some (A, putArc rg2 A zeroArc))"

definition vtkReebGraphNewLabel :: "vtkReebGraph \<Rightarrow> (int \<times> vtkReebGraph) option" where
  "vtkReebGraphNewLabel rg =
     (let L = FreeZone (MainLabelTable rg) in
      case vtkReebGraphGetLabel rg L of
        None \<Rightarrow> None
      | Some l \<Rightarrow>
          let rg1 = rg\<lparr>MainLabelTable := (MainLabelTable rg)\<lparr>FreeZone := ArcId l\<rparr>\<rparr>;
              rg2 = rg1\<lparr>MainLabelTable :=
                          (MainLabelTable rg1)\<lparr>Number := Number (MainLabelTable rg1) + 1\<rparr>\<rparr>
          in Some (L, putLabel rg2 L zeroLabel))"

subsection \<open>Deallocation: pushing on the free list\<close>

text \<open>
  \<^verbatim>\<open>vtkReebGraphDeleteNode(rg, N)\<close>: \<^verbatim>\<open>ClearNode(rg, N); GetNode(N)->ArcDownId =
  FreeZone; FreeZone = N; --Number\<close>, and the same shape for arcs and labels.
\<close>

definition vtkReebGraphDeleteNode :: "vtkReebGraph \<Rightarrow> int \<Rightarrow> vtkReebGraph option" where
  "vtkReebGraphDeleteNode rg N =
     (case vtkReebGraphClearNode rg N of
        None \<Rightarrow> None
      | Some rg1 \<Rightarrow>
          (case modNode rg1 N (\<lambda>n. n\<lparr>ArcDownId := FreeZone (MainNodeTable rg1)\<rparr>) of
             None \<Rightarrow> None
           | Some rg2 \<Rightarrow>
               let rg3 = rg2\<lparr>MainNodeTable := (MainNodeTable rg2)\<lparr>FreeZone := N\<rparr>\<rparr>
               in Some (rg3\<lparr>MainNodeTable :=
                              (MainNodeTable rg3)\<lparr>Number := Number (MainNodeTable rg3) - 1\<rparr>\<rparr>)))"

definition vtkReebGraphDeleteArc :: "vtkReebGraph \<Rightarrow> int \<Rightarrow> vtkReebGraph option" where
  "vtkReebGraphDeleteArc rg A =
     (case vtkReebGraphClearArc rg A of
        None \<Rightarrow> None
      | Some rg1 \<Rightarrow>
          (case modArc rg1 A (\<lambda>a. a\<lparr>LabelId0 := FreeZone (MainArcTable rg1)\<rparr>) of
             None \<Rightarrow> None
           | Some rg2 \<Rightarrow>
               let rg3 = rg2\<lparr>MainArcTable := (MainArcTable rg2)\<lparr>FreeZone := A\<rparr>\<rparr>
               in Some (rg3\<lparr>MainArcTable :=
                              (MainArcTable rg3)\<lparr>Number := Number (MainArcTable rg3) - 1\<rparr>\<rparr>)))"

definition vtkReebGraphDeleteLabel :: "vtkReebGraph \<Rightarrow> int \<Rightarrow> vtkReebGraph option" where
  "vtkReebGraphDeleteLabel rg L =
     (case vtkReebGraphClearLabel rg L of
        None \<Rightarrow> None
      | Some rg1 \<Rightarrow>
          (case modLabel rg1 L (\<lambda>l. l\<lparr>ArcId := FreeZone (MainLabelTable rg1)\<rparr>) of
             None \<Rightarrow> None
           | Some rg2 \<Rightarrow>
               let rg3 = rg2\<lparr>MainLabelTable := (MainLabelTable rg2)\<lparr>FreeZone := L\<rparr>\<rparr>
               in Some (rg3\<lparr>MainLabelTable :=
                              (MainLabelTable rg3)\<lparr>Number := Number (MainLabelTable rg3) - 1\<rparr>\<rparr>)))"

section \<open>The order on nodes and AddArc\<close>

text \<open>
  \<^verbatim>\<open>vtkReebGraphIsSmaller(rg, nodeId0, nodeId1, node0, node1)\<close> compares the two
  scalar values and, when they are equal, the two \<^emph>\<open>node ids\<close> (the pool slots); the
  variant on \<^verbatim>\<open>VertexId\<close> is commented out in the header.
  \<^verbatim>\<open>vtkReebGraphIsSmaller2\<close> fetches the two nodes first.
\<close>

definition vtkReebGraphIsSmaller ::
  "int \<Rightarrow> int \<Rightarrow> vtkReebNode \<Rightarrow> vtkReebNode \<Rightarrow> bool" where
  "vtkReebGraphIsSmaller nodeId0 nodeId1 node0 node1 =
     (Value node0 < Value node1 \<or> (Value node0 = Value node1 \<and> nodeId0 < nodeId1))"

definition vtkReebGraphIsSmaller2 :: "vtkReebGraph \<Rightarrow> int \<Rightarrow> int \<Rightarrow> bool option" where
  "vtkReebGraphIsSmaller2 rg nodeId0 nodeId1 =
     (case vtkReebGraphGetNode rg nodeId0 of
        None \<Rightarrow> None
      | Some node0 \<Rightarrow>
          (case vtkReebGraphGetNode rg nodeId1 of
             None \<Rightarrow> None
           | Some node1 \<Rightarrow> Some (vtkReebGraphIsSmaller nodeId0 nodeId1 node0 node1)))"

text \<open>
  \<^verbatim>\<open>vtkReebGraphIsHigherThan(rg, N0, N1, n0, n1)\<close>, the opposite order of the same
  header, compares the two scalar values and, when they are equal, the two
  \<^verbatim>\<open>VertexId\<close> fields. \<^verbatim>\<open>vtkReebGraphIsHigherThan2\<close> fetches the two nodes first.
\<close>

definition vtkReebGraphIsHigherThan ::
  "int \<Rightarrow> int \<Rightarrow> vtkReebNode \<Rightarrow> vtkReebNode \<Rightarrow> bool" where
  "vtkReebGraphIsHigherThan N0 N1 n0 n1 =
     (Value n0 > Value n1 \<or> (Value n0 = Value n1 \<and> VertexId n0 > VertexId n1))"

definition vtkReebGraphIsHigherThan2 :: "vtkReebGraph \<Rightarrow> int \<Rightarrow> int \<Rightarrow> bool option" where
  "vtkReebGraphIsHigherThan2 rg N0 N1 =
     (case vtkReebGraphGetNode rg N0 of
        None \<Rightarrow> None
      | Some n0 \<Rightarrow>
          (case vtkReebGraphGetNode rg N1 of
             None \<Rightarrow> None
           | Some n1 \<Rightarrow> Some (vtkReebGraphIsHigherThan N0 N1 n0 n1)))"

text \<open>
  \<^verbatim>\<open>AddArc(nodeId0, nodeId1)\<close> swaps its arguments when the first is not smaller and
  hands the two-element table to \<^verbatim>\<open>AddPath(2, table, 0)\<close>. \<^verbatim>\<open>AddPath\<close> is only
  declared in the header, so it is a parameter of the model.
\<close>

definition AddArc ::
  "(vtkReebGraph \<Rightarrow> int \<Rightarrow> int list \<Rightarrow> vtkReebLabelTag \<Rightarrow> 'r) \<Rightarrow>
   vtkReebGraph \<Rightarrow> int \<Rightarrow> int \<Rightarrow> 'r option" where
  "AddArc AddPath rg nodeId0 nodeId1 =
     (case vtkReebGraphIsSmaller2 rg nodeId0 nodeId1 of
        None \<Rightarrow> None
      | Some smaller \<Rightarrow>
          let (n0, n1) = (if \<not> smaller then (nodeId1, nodeId0) else (nodeId0, nodeId1))
          in Some (AddPath rg 2 [n0, n1] 0))"

text \<open>
  \<^verbatim>\<open>vtkReebGraphVertexSoS\<close>, at the end of the header, orders pairs (vertex id,
  scalar) by scalar and then by vertex id.
\<close>

definition vtkReebGraphVertexSoS :: "int \<times> real \<Rightarrow> int \<times> real \<Rightarrow> bool" where
  "vtkReebGraphVertexSoS v0 v1 =
     (snd v0 < snd v1 \<or> (snd v0 = snd v1 \<and> fst v0 < fst v1))"

text \<open>
  The order \<open>less\<close> as the specification words it, on pairs (value, vertex id) of the
  originating mesh vertex.
\<close>

definition less_spec :: "real \<times> int \<Rightarrow> real \<times> int \<Rightarrow> bool" where
  "less_spec p q = (fst p < fst q \<or> (fst p = fst q \<and> snd p < snd q))"

definition node_key :: "vtkReebNode \<Rightarrow> real \<times> int" where
  "node_key n = (Value n, VertexId n)"

section \<open>Candidate paths of the simplification\<close>

text \<open>
  \<^verbatim>\<open>struct vtkReebPath\<close>; the two tables are C arrays, modelled as lists.
  \<^verbatim>\<open>operator<\<close> returns the negation of a three-way disjunction; the last
  disjunct reads \<^verbatim>\<open>NodeTable[NodeNumber - 1]\<close> of both paths, and is only evaluated
  when the values and the arc numbers are equal.
\<close>

record vtkReebPath =
  SimplificationValue :: real
  ArcNumber :: int
  ArcTable :: "int list"
  NodeNumber :: int
  NodeTable :: "int list"

definition lastNode :: "vtkReebPath \<Rightarrow> int option" where
  "lastNode P = deref (NodeTable P) (NodeNumber P - 1)"

definition vtkReebPath_less :: "vtkReebPath \<Rightarrow> vtkReebPath \<Rightarrow> bool option" where
  "vtkReebPath_less P E =
     (if SimplificationValue P < SimplificationValue E then Some False
      else if SimplificationValue P = SimplificationValue E \<and> ArcNumber P < ArcNumber E
        then Some False
      else if SimplificationValue P = SimplificationValue E \<and> ArcNumber P = ArcNumber E
        then (case lastNode P of
                None \<Rightarrow> None
              | Some x \<Rightarrow> (case lastNode E of None \<Rightarrow> None | Some y \<Rightarrow> Some (\<not> x < y)))
      else Some True)"

text \<open>
  The ranking of the specification: smaller persistence first, then fewer arcs, then
  the smaller last node id.
\<close>

definition path_key :: "vtkReebPath \<Rightarrow> (real \<times> int \<times> int) option" where
  "path_key P = map_option (\<lambda>x. (SimplificationValue P, ArcNumber P, x)) (lastNode P)"

definition ranks_before :: "real \<times> int \<times> int \<Rightarrow> real \<times> int \<times> int \<Rightarrow> bool" where
  "ranks_before k k' =
     (case k of (v, a, n) \<Rightarrow> case k' of (v', a', n') \<Rightarrow>
        v < v' \<or> (v = v' \<and> a < a') \<or> (v = v' \<and> a = a' \<and> n < n'))"

section \<open>Persistence of an arc\<close>

text \<open>
  \<^verbatim>\<open>vtkReebGraphGetArcPersistence(rg, a)\<close> divides the difference of the values of
  the two end nodes by \<^verbatim>\<open>MaximumScalarValue - MinimumScalarValue\<close>, with no test of
  the divisor. A zero divisor has no defined result in C++; the model reports it as
  its own fault, apart from a bad node id.
\<close>

datatype fault = BadPointer | DivisionByZero

definition vtkReebGraphGetArcPersistence :: "vtkReebGraph \<Rightarrow> vtkReebArc \<Rightarrow> fault + real" where
  "vtkReebGraphGetArcPersistence rg a =
     (case vtkReebGraphGetNode rg (NodeId1 a) of
        None \<Rightarrow> Inl BadPointer
      | Some n1 \<Rightarrow>
          (case vtkReebGraphGetNode rg (NodeId0 a) of
             None \<Rightarrow> Inl BadPointer
           | Some n0 \<Rightarrow>
               if MaximumScalarValue rg - MinimumScalarValue rg = 0 then Inl DivisionByZero
               else Inr ((Value n1 - Value n0)
                         / (MaximumScalarValue rg - MinimumScalarValue rg))))"

text \<open>
  The live nodes are the slots \<open>1, 2, ...\<close> of the buffer that are not cleared, which
  is how the header's \<^verbatim>\<open>vtkReebGraphIsNodeCleared\<close> is meant to be used.
\<close>

definition liveNodes :: "vtkReebGraph \<Rightarrow> vtkReebNode list" where
  "liveNodes rg = filter (\<lambda>n. ArcUpId n \<noteq> - 2) (tl (Buffer (MainNodeTable rg)))"

text \<open>
  Modelled from the spec: the code that maintains \<^verbatim>\<open>MinimumScalarValue\<close> and
  \<^verbatim>\<open>MaximumScalarValue\<close> is not in the header. The specification's scalar-range
  invariant says that the value of every node lies between the two bounds.
\<close>

definition scalarRangeBounds :: "vtkReebGraph \<Rightarrow> bool" where
  "scalarRangeBounds rg =
     list_all (\<lambda>n. MinimumScalarValue rg \<le> Value n \<and> Value n \<le> MaximumScalarValue rg)
       (liveNodes rg)"

text \<open>
  A stronger condition on a graph, which neither the header nor the specification
  states: each of the two bounds is the value of some live node. Deleting a node with
  \<^verbatim>\<open>vtkReebGraphDeleteNode\<close> leaves the bounds as they are, and so may end it.
\<close>

definition scalarRangeAttained :: "vtkReebGraph \<Rightarrow> bool" where
  "scalarRangeAttained rg =
     (list_ex (\<lambda>n. Value n = MinimumScalarValue rg) (liveNodes rg) \<and>
      list_ex (\<lambda>n. Value n = MaximumScalarValue rg) (liveNodes rg))"

definition allShareOneValue :: "vtkReebGraph \<Rightarrow> bool" where
  "allShareOneValue rg =
     list_all (\<lambda>n. list_all (\<lambda>m. Value n = Value m) (liveNodes rg)) (liveNodes rg)"

definition twoDistinctValues :: "vtkReebGraph \<Rightarrow> bool" where
  "twoDistinctValues rg =
     list_ex (\<lambda>n. list_ex (\<lambda>m. Value n \<noteq> Value m) (liveNodes rg)) (liveNodes rg)"

section \<open>Degrees and regular nodes\<close>

text \<open>
  \<^verbatim>\<open>vtkReebGraphIsRegular(rg, n)\<close>, with the short-circuit evaluation of
  \<^verbatim>\<open>&&\<close>: an arc is only fetched after its id has been tested against zero.
\<close>

definition vtkReebGraphIsRegular :: "vtkReebGraph \<Rightarrow> vtkReebNode \<Rightarrow> bool option" where
  "vtkReebGraphIsRegular rg n =
     (if IsCritical n then Some False
      else if ArcDownId n = 0 then Some False
      else (case vtkReebGraphGetArc rg (ArcDownId n) of
              None \<Rightarrow> None
            | Some ad \<Rightarrow>
                if ArcDwId1 ad \<noteq> 0 then Some False
                else if ArcUpId n = 0 then Some False
                else (case vtkReebGraphGetArc rg (ArcUpId n) of
                        None \<Rightarrow> None
                      | Some au \<Rightarrow> Some (ArcDwId0 au = 0))))"

text \<open>
  \<^verbatim>\<open>vtkReebGraphGetDownDegree(dst, rg, N)\<close> walks the down list of \<open>N\<close> along
  \<^verbatim>\<open>ArcDwId1\<close> and counts; \<^verbatim>\<open>vtkReebGraphGetUpDegree\<close> walks the up list along
  \<^verbatim>\<open>ArcDwId0\<close>. On a cyclic list the loop does not end: the walks are partial
  functions, \<open>None\<close> standing for a walk that does not return a count (it runs for
  ever or leaves the buffer).
\<close>

partial_function (option) downDegreeWalk :: "vtkReebGraph \<Rightarrow> int \<Rightarrow> int \<Rightarrow> int option" where
  "downDegreeWalk rg A dst =
     (if A = 0 then Some dst
      else (case vtkReebGraphGetArc rg A of
              None \<Rightarrow> None
            | Some a \<Rightarrow> downDegreeWalk rg (ArcDwId1 a) (dst + 1)))"

partial_function (option) upDegreeWalk :: "vtkReebGraph \<Rightarrow> int \<Rightarrow> int \<Rightarrow> int option" where
  "upDegreeWalk rg A dst =
     (if A = 0 then Some dst
      else (case vtkReebGraphGetArc rg A of
              None \<Rightarrow> None
            | Some a \<Rightarrow> upDegreeWalk rg (ArcDwId0 a) (dst + 1)))"

definition vtkReebGraphGetDownDegree :: "vtkReebGraph \<Rightarrow> int \<Rightarrow> int option" where
  "vtkReebGraphGetDownDegree rg N =
     (case vtkReebGraphGetNode rg N of
        None \<Rightarrow> None
      | Some n \<Rightarrow> downDegreeWalk rg (ArcDownId n) 0)"

definition vtkReebGraphGetUpDegree :: "vtkReebGraph \<Rightarrow> int \<Rightarrow> int option" where
  "vtkReebGraphGetUpDegree rg N =
     (case vtkReebGraphGetNode rg N of
        None \<Rightarrow> None
      | Some n \<Rightarrow> upDegreeWalk rg (ArcUpId n) 0)"

text \<open>The test of the specification, on the two counted degrees.\<close>

definition is_regular_spec :: "bool \<Rightarrow> int \<Rightarrow> int \<Rightarrow> bool" where
  "is_regular_spec critical downDegree upDegree =
     (\<not> critical \<and> downDegree = 1 \<and> upDegree = 1)"

section \<open>Vertex collapse\<close>

text \<open>
  The body of the \<^verbatim>\<open>for\<close> loop of \<^verbatim>\<open>vtkReebGraphVertexCollapse\<close>, for the label
  \<open>Lb\<close> of the upper arc: the label is taken out of its vertical chain
  (\<^verbatim>\<open>VPrev\<close>, \<^verbatim>\<open>VNext\<close>) and then deleted. \<^verbatim>\<open>lb\<close> is a pointer, so its fields are
  read again after the first write.
\<close>

definition collapseLabelStep :: "vtkReebGraph \<Rightarrow> int \<Rightarrow> vtkReebGraph option" where
  "collapseLabelStep rg Lb = do {
     lb \<leftarrow> vtkReebGraphGetLabel rg Lb;
     rg1 \<leftarrow> (if VPrev lb \<noteq> 0
              then modLabel rg (VPrev lb) (\<lambda>l. l\<lparr>VNext := VNext lb\<rparr>)
              else Some rg);
     lb1 \<leftarrow> vtkReebGraphGetLabel rg1 Lb;
     rg2 \<leftarrow> (if VNext lb1 \<noteq> 0
              then modLabel rg1 (VNext lb1) (\<lambda>l. l\<lparr>VPrev := VPrev lb1\<rparr>)
              else Some rg1);
     vtkReebGraphDeleteLabel rg2 Lb
   }"

text \<open>
  The loop \<^verbatim>\<open>for (Lb = a1->LabelId0; Lb; Lb = Lnext)\<close>, where \<^verbatim>\<open>Lnext\<close> is read
  from \<^verbatim>\<open>lb->HNext\<close> before the body runs.
\<close>

partial_function (option) collapseLabels :: "vtkReebGraph \<Rightarrow> int \<Rightarrow> vtkReebGraph option" where
  "collapseLabels rg Lb =
     (if Lb = 0 then Some rg
      else (case vtkReebGraphGetLabel rg Lb of
              None \<Rightarrow> None
            | Some lb \<Rightarrow>
                (case collapseLabelStep rg Lb of
                   None \<Rightarrow> None
                 | Some rg' \<Rightarrow> collapseLabels rg' (HNext lb))))"

text \<open>
  The arc part of \<^verbatim>\<open>vtkReebGraphVertexCollapse(rg, N, n)\<close>: the lower arc \<open>A0\<close> of
  \<open>N\<close> takes the upper end of the upper arc \<open>A1\<close> and its place in the down list of
  that end node. \<^verbatim>\<open>a0\<close> and \<^verbatim>\<open>a1\<close> are pointers; each use reads the buffer as it
  is then.
\<close>

definition collapseArcs :: "vtkReebGraph \<Rightarrow> int \<Rightarrow> int \<Rightarrow> vtkReebGraph option" where
  "collapseArcs rg A0 A1 = do {
     a1 \<leftarrow> vtkReebGraphGetArc rg A1;
     rg1 \<leftarrow> modArc rg A0 (\<lambda>a. a\<lparr>NodeId1 := NodeId1 a1\<rparr>);
     a1 \<leftarrow> vtkReebGraphGetArc rg1 A1;
     rg2 \<leftarrow> modArc rg1 A0 (\<lambda>a. a\<lparr>ArcUpId1 := ArcUpId1 a1\<rparr>);
     a1 \<leftarrow> vtkReebGraphGetArc rg2 A1;
     rg3 \<leftarrow> (if ArcUpId1 a1 \<noteq> 0
              then modArc rg2 (ArcUpId1 a1) (\<lambda>a. a\<lparr>ArcDwId1 := A0\<rparr>)
              else Some rg2);
     a1 \<leftarrow> vtkReebGraphGetArc rg3 A1;
     rg4 \<leftarrow> modArc rg3 A0 (\<lambda>a. a\<lparr>ArcDwId1 := ArcDwId1 a1\<rparr>);
     a1 \<leftarrow> vtkReebGraphGetArc rg4 A1;
     rg5 \<leftarrow> (if ArcDwId1 a1 \<noteq> 0
              then modArc rg4 (ArcDwId1 a1) (\<lambda>a. a\<lparr>ArcUpId1 := A0\<rparr>)
              else Some rg4);
     a1 \<leftarrow> vtkReebGraphGetArc rg5 A1;
     n1 \<leftarrow> vtkReebGraphGetNode rg5 (NodeId1 a1);
     (if ArcDownId n1 = A1
      then modNode rg5 (NodeId1 a1) (\<lambda>n. n\<lparr>ArcDownId := A0\<rparr>)
      else Some rg5)
   }"

text \<open>
  \<^verbatim>\<open>vtkReebGraphVertexCollapse(rg, N, n)\<close> with \<^verbatim>\<open>n = vtkReebGraphGetNode(rg, N)\<close>,
  as at its call sites: the arc part, the loop over the labels of the upper arc, then
  \<^verbatim>\<open>vtkReebGraphDeleteArc(rg, A1)\<close> and \<^verbatim>\<open>vtkReebGraphDeleteNode(rg, N)\<close>.
\<close>

definition vtkReebGraphVertexCollapse :: "vtkReebGraph \<Rightarrow> int \<Rightarrow> vtkReebGraph option" where
  "vtkReebGraphVertexCollapse rg N = do {
     n \<leftarrow> vtkReebGraphGetNode rg N;
     rg6 \<leftarrow> collapseArcs rg (ArcDownId n) (ArcUpId n);
     a1 \<leftarrow> vtkReebGraphGetArc rg6 (ArcUpId n);
     rg7 \<leftarrow> collapseLabels rg6 (LabelId0 a1);
     rg8 \<leftarrow> vtkReebGraphDeleteArc rg7 (ArcUpId n);
     vtkReebGraphDeleteNode rg8 N
   }"

text \<open>
  The horizontal chain of labels that starts at \<open>L\<close>: the ids met along \<^verbatim>\<open>HNext\<close>
  up to the null id, each of them a label that can be addressed.
\<close>

fun hchain :: "vtkReebGraph \<Rightarrow> int \<Rightarrow> int list \<Rightarrow> bool" where
  "hchain rg L [] = (L = 0)"
| "hchain rg L (x # xs) =
     (L = x \<and>
      (case vtkReebGraphGetLabel rg x of None \<Rightarrow> False | Some l \<Rightarrow> hchain rg (HNext l) xs))"

text \<open>A link is null or the id of a slot that can be addressed.\<close>

definition labelLinkOk :: "vtkReebGraph \<Rightarrow> int \<Rightarrow> bool" where
  "labelLinkOk rg v = (v = 0 \<or> vtkReebGraphGetLabel rg v \<noteq> None)"

definition arcLinkOk :: "vtkReebGraph \<Rightarrow> int \<Rightarrow> bool" where
  "arcLinkOk rg v = (v = 0 \<or> vtkReebGraphGetArc rg v \<noteq> None)"

definition vlinksOk :: "vtkReebGraph \<Rightarrow> int list \<Rightarrow> bool" where
  "vlinksOk rg xs =
     list_all (\<lambda>x. case vtkReebGraphGetLabel rg x of
                     None \<Rightarrow> False
                   | Some l \<Rightarrow> labelLinkOk rg (VPrev l) \<and> labelLinkOk rg (VNext l)) xs"

definition labelsCleared :: "vtkReebGraph \<Rightarrow> int list \<Rightarrow> bool" where
  "labelsCleared rg xs =
     list_all (\<lambda>x. vtkReebGraphIsLabelCleared rg x = Some True) xs"

text \<open>
  The fields of an arc that the sibling links do not hold: its two end nodes and the
  two ends of its label chain.
\<close>

definition arcCore :: "vtkReebArc \<Rightarrow> int \<times> int \<times> int \<times> int" where
  "arcCore a = (NodeId0 a, NodeId1 a, LabelId0 a, LabelId1 a)"

text \<open>
  What holds between the writes of the arc part of the collapse, seen from the graph
  \<open>rg0\<close> it started from: only arcs have been written, every arc id is as
  addressable as before, the lower arc \<open>A0\<close> and the upper arc \<open>A1\<close> have the cores
  \<open>k0\<close> and \<open>k1\<close>, and the sibling links of \<open>A1\<close> are null or addressable.
\<close>

definition collapseStage ::
  "vtkReebGraph \<Rightarrow> int \<Rightarrow> int \<Rightarrow> int \<times> int \<times> int \<times> int \<Rightarrow> int \<times> int \<times> int \<times> int \<Rightarrow>
   vtkReebGraph \<Rightarrow> bool" where
  "collapseStage rg0 A0 A1 k0 k1 rg =
     (MainLabelTable rg = MainLabelTable rg0 \<and> MainNodeTable rg = MainNodeTable rg0 \<and>
      Number (MainArcTable rg) = Number (MainArcTable rg0) \<and>
      FreeZone (MainArcTable rg) = FreeZone (MainArcTable rg0) \<and>
      (\<forall>B. (vtkReebGraphGetArc rg B = None) = (vtkReebGraphGetArc rg0 B = None)) \<and>
      (case vtkReebGraphGetArc rg A0 of None \<Rightarrow> False | Some c \<Rightarrow> arcCore c = k0) \<and>
      (case vtkReebGraphGetArc rg A1 of
         None \<Rightarrow> False
       | Some b \<Rightarrow> arcCore b = k1 \<and> arcLinkOk rg0 (ArcUpId1 b) \<and> arcLinkOk rg0 (ArcDwId1 b)))"

text \<open>
  The vertical neighbours of a label (\<open>0\<close> when there is none), and what a well-formed
  graph gives for the labels \<open>xs\<close> of one arc: they carry different tags, so their
  vertical chains are disjoint, the neighbours lie on other arcs and no two labels of
  \<open>xs\<close> share a neighbour.
\<close>

definition vprevOf :: "vtkReebGraph \<Rightarrow> int \<Rightarrow> int" where
  "vprevOf rg L = (case vtkReebGraphGetLabel rg L of None \<Rightarrow> 0 | Some l \<Rightarrow> VPrev l)"

definition vnextOf :: "vtkReebGraph \<Rightarrow> int \<Rightarrow> int" where
  "vnextOf rg L = (case vtkReebGraphGetLabel rg L of None \<Rightarrow> 0 | Some l \<Rightarrow> VNext l)"

definition vneighboursOutside :: "vtkReebGraph \<Rightarrow> int list \<Rightarrow> bool" where
  "vneighboursOutside rg xs =
     list_all (\<lambda>x. vprevOf rg x \<notin> set xs \<and> vnextOf rg x \<notin> set xs) xs"

definition vneighboursDistinct :: "vtkReebGraph \<Rightarrow> int list \<Rightarrow> bool" where
  "vneighboursDistinct rg xs =
     (distinct (filter (\<lambda>v. v \<noteq> 0) (map (vprevOf rg) xs)) \<and>
      distinct (filter (\<lambda>v. v \<noteq> 0) (map (vnextOf rg) xs)))"

text \<open>
  The vertical chains of the labels \<open>xs\<close> of \<open>rg\<close> are closed over them in \<open>rg'\<close>:
  the former predecessor of each label now points to its former successor, and back.
\<close>

definition rethreaded :: "vtkReebGraph \<Rightarrow> vtkReebGraph \<Rightarrow> int list \<Rightarrow> bool" where
  "rethreaded rg rg' xs =
     list_all (\<lambda>x. (vprevOf rg x = 0 \<or> vnextOf rg' (vprevOf rg x) = vnextOf rg x) \<and>
                    (vnextOf rg x = 0 \<or> vprevOf rg' (vnextOf rg x) = vprevOf rg x)) xs"

section \<open>Return codes of Build\<close>

text \<open>The anonymous \<^verbatim>\<open>enum\<close> of the class.\<close>

definition ERR_INCORRECT_FIELD :: int where
  "ERR_INCORRECT_FIELD = - 1"

definition ERR_NO_SUCH_FIELD :: int where
  "ERR_NO_SUCH_FIELD = - 2"

definition ERR_NOT_A_SIMPLICIAL_MESH :: int where
  "ERR_NOT_A_SIMPLICIAL_MESH = - 3"

text \<open>
  Modelled from the spec: the bodies of the six \<^verbatim>\<open>Build\<close> overloads are not in the
  header, which only declares them and documents their return values. A mesh is seen
  through its number of vertices and the number of points of each of its cells; the
  scalar field, looked up by array, id or name, is absent (\<open>None\<close>) or has a number
  of tuples. \<open>simplexSize\<close> is 3 for a surface mesh (triangles) and 4 for a volume
  mesh (tetrahedra). The specification gives one code per failure: the field is looked up
  first, then its size is compared, then the cells are streamed.
\<close>

record meshView =
  NumberOfPoints :: int
  CellSizes :: "int list"

definition Build :: "int \<Rightarrow> meshView \<Rightarrow> int option \<Rightarrow> int" where
  "Build simplexSize mesh scalarField =
     (case scalarField of
        None \<Rightarrow> ERR_NO_SUCH_FIELD
      | Some tuples \<Rightarrow>
          if tuples \<noteq> NumberOfPoints mesh then ERR_INCORRECT_FIELD
          else if list_ex (\<lambda>c. c \<noteq> simplexSize) (CellSizes mesh)
            then ERR_NOT_A_SIMPLICIAL_MESH
          else 0)"

section \<open>Example graphs\<close>

text \<open>
  A chain of three nodes \<open>1 \<rightarrow> 2 \<rightarrow> 3\<close> (vertex ids 0, 1, 2; values 0, 1, 2) with
  arcs 1 and 2, and one path of tag 7 carrying a label on each arc.
\<close>

definition chainGraph :: vtkReebGraph where
  "chainGraph =
     \<lparr>MainArcTable = \<lparr>Size = 3, Number = 2, FreeZone = 0, Buffer =
        [zeroArc,
         \<lparr>NodeId0 = 1, ArcUpId0 = 0, ArcDwId0 = 0, NodeId1 = 2, ArcUpId1 = 0, ArcDwId1 = 0,
          LabelId0 = 1, LabelId1 = 1\<rparr>,
         \<lparr>NodeId0 = 2, ArcUpId0 = 0, ArcDwId0 = 0, NodeId1 = 3, ArcUpId1 = 0, ArcDwId1 = 0,
          LabelId0 = 2, LabelId1 = 2\<rparr>]\<rparr>,
      MainNodeTable = \<lparr>Size = 4, Number = 3, FreeZone = 0, Buffer =
        [zeroNode,
         \<lparr>VertexId = 0, Value = 0, ArcDownId = 0, ArcUpId = 1,
          IsFinalized = True, IsCritical = True\<rparr>,
         \<lparr>VertexId = 1, Value = 1, ArcDownId = 1, ArcUpId = 2,
          IsFinalized = True, IsCritical = False\<rparr>,
         \<lparr>VertexId = 2, Value = 2, ArcDownId = 2, ArcUpId = 0,
          IsFinalized = True, IsCritical = True\<rparr>]\<rparr>,
      MainLabelTable = \<lparr>Size = 3, Number = 2, FreeZone = 0, Buffer =
        [zeroLabel,
         \<lparr>ArcId = 1, HPrev = 0, HNext = 0, label = 7, VPrev = 0, VNext = 2\<rparr>,
         \<lparr>ArcId = 2, HPrev = 0, HNext = 0, label = 7, VPrev = 1, VNext = 0\<rparr>]\<rparr>,
      MinimumScalarValue = 0, MaximumScalarValue = 2\<rparr>"

text \<open>The chain after node 2 has been collapsed.\<close>

definition collapsedChain :: vtkReebGraph where
  "collapsedChain =
     \<lparr>MainArcTable = \<lparr>Size = 3, Number = 1, FreeZone = 2, Buffer =
        [zeroArc,
         \<lparr>NodeId0 = 1, ArcUpId0 = 0, ArcDwId0 = 0, NodeId1 = 3, ArcUpId1 = 0, ArcDwId1 = 0,
          LabelId0 = 1, LabelId1 = 1\<rparr>,
         \<lparr>NodeId0 = 2, ArcUpId0 = 0, ArcDwId0 = 0, NodeId1 = 3, ArcUpId1 = 0, ArcDwId1 = 0,
          LabelId0 = 0, LabelId1 = - 2\<rparr>]\<rparr>,
      MainNodeTable = \<lparr>Size = 4, Number = 2, FreeZone = 2, Buffer =
        [zeroNode,
         \<lparr>VertexId = 0, Value = 0, ArcDownId = 0, ArcUpId = 1,
          IsFinalized = True, IsCritical = True\<rparr>,
         \<lparr>VertexId = 1, Value = 1, ArcDownId = 0, ArcUpId = - 2,
          IsFinalized = True, IsCritical = False\<rparr>,
         \<lparr>VertexId = 2, Value = 2, ArcDownId = 1, ArcUpId = 0,
          IsFinalized = True, IsCritical = True\<rparr>]\<rparr>,
      MainLabelTable = \<lparr>Size = 3, Number = 1, FreeZone = 2, Buffer =
        [zeroLabel,
         \<lparr>ArcId = 1, HPrev = 0, HNext = 0, label = 7, VPrev = 0, VNext = 0\<rparr>,
         \<lparr>ArcId = 0, HPrev = 0, HNext = - 2, label = 7, VPrev = 1, VNext = 0\<rparr>]\<rparr>,
      MinimumScalarValue = 0, MaximumScalarValue = 2\<rparr>"

text \<open>
  Two nodes of equal value: node 1 was created for mesh vertex 5 and node 2 for mesh
  vertex 3 (node ids follow the order in which the vertices are first seen).
\<close>

definition tieGraph :: vtkReebGraph where
  "tieGraph =
     \<lparr>MainArcTable = \<lparr>Size = 1, Number = 0, FreeZone = 0, Buffer = [zeroArc]\<rparr>,
      MainNodeTable = \<lparr>Size = 3, Number = 2, FreeZone = 0, Buffer =
        [zeroNode,
         \<lparr>VertexId = 5, Value = 0, ArcDownId = 0, ArcUpId = 0,
          IsFinalized = False, IsCritical = False\<rparr>,
         \<lparr>VertexId = 3, Value = 0, ArcDownId = 0, ArcUpId = 0,
          IsFinalized = False, IsCritical = False\<rparr>]\<rparr>,
      MainLabelTable = \<lparr>Size = 1, Number = 0, FreeZone = 0, Buffer = [zeroLabel]\<rparr>,
      MinimumScalarValue = 0, MaximumScalarValue = 0\<rparr>"

text \<open>A constant field: two nodes of value 1 joined by one arc.\<close>

definition flatGraph :: vtkReebGraph where
  "flatGraph =
     \<lparr>MainArcTable = \<lparr>Size = 2, Number = 1, FreeZone = 0, Buffer =
        [zeroArc,
         \<lparr>NodeId0 = 1, ArcUpId0 = 0, ArcDwId0 = 0, NodeId1 = 2, ArcUpId1 = 0, ArcDwId1 = 0,
          LabelId0 = 0, LabelId1 = 0\<rparr>]\<rparr>,
      MainNodeTable = \<lparr>Size = 3, Number = 2, FreeZone = 0, Buffer =
        [zeroNode,
         \<lparr>VertexId = 0, Value = 1, ArcDownId = 0, ArcUpId = 1,
          IsFinalized = True, IsCritical = True\<rparr>,
         \<lparr>VertexId = 1, Value = 1, ArcDownId = 1, ArcUpId = 0,
          IsFinalized = True, IsCritical = True\<rparr>]\<rparr>,
      MainLabelTable = \<lparr>Size = 1, Number = 0, FreeZone = 0, Buffer = [zeroLabel]\<rparr>,
      MinimumScalarValue = 1, MaximumScalarValue = 1\<rparr>"

text \<open>
  A node of value 0 beside two nodes of value 1 joined by an arc, and the same graph
  after \<^verbatim>\<open>vtkReebGraphDeleteNode\<close> has freed node 1.
\<close>

definition leafGraph :: vtkReebGraph where
  "leafGraph =
     \<lparr>MainArcTable = \<lparr>Size = 2, Number = 1, FreeZone = 0, Buffer =
        [zeroArc,
         \<lparr>NodeId0 = 2, ArcUpId0 = 0, ArcDwId0 = 0, NodeId1 = 3, ArcUpId1 = 0, ArcDwId1 = 0,
          LabelId0 = 0, LabelId1 = 0\<rparr>]\<rparr>,
      MainNodeTable = \<lparr>Size = 4, Number = 3, FreeZone = 0, Buffer =
        [zeroNode,
         \<lparr>VertexId = 0, Value = 0, ArcDownId = 0, ArcUpId = 0,
          IsFinalized = True, IsCritical = True\<rparr>,
         \<lparr>VertexId = 1, Value = 1, ArcDownId = 0, ArcUpId = 1,
          IsFinalized = True, IsCritical = True\<rparr>,
         \<lparr>VertexId = 2, Value = 1, ArcDownId = 1, ArcUpId = 0,
          IsFinalized = True, IsCritical = True\<rparr>]\<rparr>,
      MainLabelTable = \<lparr>Size = 1, Number = 0, FreeZone = 0, Buffer = [zeroLabel]\<rparr>,
      MinimumScalarValue = 0, MaximumScalarValue = 1\<rparr>"

definition prunedGraph :: vtkReebGraph where
  "prunedGraph =
     \<lparr>MainArcTable = \<lparr>Size = 2, Number = 1, FreeZone = 0, Buffer =
        [zeroArc,
         \<lparr>NodeId0 = 2, ArcUpId0 = 0, ArcDwId0 = 0, NodeId1 = 3, ArcUpId1 = 0, ArcDwId1 = 0,
          LabelId0 = 0, LabelId1 = 0\<rparr>]\<rparr>,
      MainNodeTable = \<lparr>Size = 4, Number = 2, FreeZone = 1, Buffer =
        [zeroNode,
         \<lparr>VertexId = 0, Value = 0, ArcDownId = 0, ArcUpId = - 2,
          IsFinalized = True, IsCritical = True\<rparr>,
         \<lparr>VertexId = 1, Value = 1, ArcDownId = 0, ArcUpId = 1,
          IsFinalized = True, IsCritical = True\<rparr>,
         \<lparr>VertexId = 2, Value = 1, ArcDownId = 1, ArcUpId = 0,
          IsFinalized = True, IsCritical = True\<rparr>]\<rparr>,
      MainLabelTable = \<lparr>Size = 1, Number = 0, FreeZone = 0, Buffer = [zeroLabel]\<rparr>,
      MinimumScalarValue = 0, MaximumScalarValue = 1\<rparr>"

definition tablePassedToAddPath ::
  "vtkReebGraph \<Rightarrow> int \<Rightarrow> int list \<Rightarrow> vtkReebLabelTag \<Rightarrow> int list" where
  "tablePassedToAddPath rg nodeNumber nodeOffset tag = nodeOffset"

text \<open>
  Two candidate paths: \<open>pathB\<close> has the smaller value, \<open>pathA\<close> the fewer arcs and the
  smaller last node.
\<close>

definition pathA :: vtkReebPath where
  "pathA = \<lparr>SimplificationValue = 1 / 2, ArcNumber = 1, ArcTable = [1],
            NodeNumber = 2, NodeTable = [1, 2]\<rparr>"

definition pathB :: vtkReebPath where
  "pathB = \<lparr>SimplificationValue = 1 / 4, ArcNumber = 2, ArcTable = [2, 3],
            NodeNumber = 3, NodeTable = [2, 3, 4]\<rparr>"

section \<open>Reading and writing the buffers\<close>

lemma deref_update:
  "inBuffer buf i \<Longrightarrow> deref (buf[nat i := x]) j = (if j = i then Some x else deref buf j)"
  by (auto simp: deref_def inBuffer_def nat_eq_iff)

lemma deref_Some_inBuffer: "deref buf i = Some x \<Longrightarrow> inBuffer buf i"
  by (simp add: deref_def split: if_splits)

lemma GetNode_putNode:
  "vtkReebGraphGetNode rg N = Some n \<Longrightarrow>
   vtkReebGraphGetNode (putNode rg N x) M = (if M = N then Some x else vtkReebGraphGetNode rg M)"
  by (auto simp: vtkReebGraphGetNode_def putNode_def deref_update dest: deref_Some_inBuffer split: if_splits)

lemma GetArc_putArc:
  "vtkReebGraphGetArc rg A = Some a \<Longrightarrow>
   vtkReebGraphGetArc (putArc rg A x) B = (if B = A then Some x else vtkReebGraphGetArc rg B)"
  by (auto simp: vtkReebGraphGetArc_def putArc_def deref_update dest: deref_Some_inBuffer split: if_splits)

lemma GetLabel_putLabel:
  "vtkReebGraphGetLabel rg L = Some l \<Longrightarrow>
   vtkReebGraphGetLabel (putLabel rg L x) M = (if M = L then Some x else vtkReebGraphGetLabel rg M)"
  by (auto simp: vtkReebGraphGetLabel_def putLabel_def deref_update dest: deref_Some_inBuffer split: if_splits)

text \<open>Deleting a slot and allocating again, pool by pool.\<close>

lemma node_delete_new:
  assumes "vtkReebGraphGetNode rg N = Some n"
  shows "\<exists>rg1 rg2.
           vtkReebGraphDeleteNode rg N = Some rg1 \<and>
           Number (MainNodeTable rg1) = Number (MainNodeTable rg) - 1 \<and>
           vtkReebGraphNewNode rg1 = Some (N, rg2) \<and>
           vtkReebGraphGetNode rg2 N = Some zeroNode \<and>
           Number (MainNodeTable rg2) = Number (MainNodeTable rg) \<and>
           FreeZone (MainNodeTable rg2) = FreeZone (MainNodeTable rg)"
proof -
  let ?rg1 = "putNode rg N (n\<lparr>ArcUpId := - 2\<rparr>)"
  let ?rg2 = "putNode ?rg1 N (n\<lparr>ArcUpId := - 2, ArcDownId := FreeZone (MainNodeTable rg)\<rparr>)"
  have g1: "vtkReebGraphGetNode ?rg1 N = Some (n\<lparr>ArcUpId := - 2\<rparr>)"
    using assms by (simp add: GetNode_putNode)
  have g2: "vtkReebGraphGetNode ?rg2 N = Some (n\<lparr>ArcUpId := - 2, ArcDownId := FreeZone (MainNodeTable rg)\<rparr>)"
    using g1 by (simp add: GetNode_putNode)
  show ?thesis
  using assms g1 g2
  by (simp add: vtkReebGraphDeleteNode_def vtkReebGraphClearNode_def modNode_def
      vtkReebGraphNewNode_def  Let_def)
     (auto simp add: vtkReebGraphGetNode_def putNode_def deref_update  dest: deref_Some_inBuffer split: if_splits)
qed

lemma arc_delete_new:
  assumes "vtkReebGraphGetArc rg A = Some a"
  shows "\<exists>rg1 rg2.
           vtkReebGraphDeleteArc rg A = Some rg1 \<and>
           Number (MainArcTable rg1) = Number (MainArcTable rg) - 1 \<and>
           vtkReebGraphNewArc rg1 = Some (A, rg2) \<and>
           vtkReebGraphGetArc rg2 A = Some zeroArc \<and>
           Number (MainArcTable rg2) = Number (MainArcTable rg) \<and>
           FreeZone (MainArcTable rg2) = FreeZone (MainArcTable rg)"
proof -
  let ?rg1 = "putArc rg A (a\<lparr>LabelId1 := - 2\<rparr>)"
  let ?a2 = "a\<lparr>LabelId1 := - 2, LabelId0 := FreeZone (MainArcTable rg)\<rparr>"
  let ?rg2 = "putArc ?rg1 A ?a2"
  have g1: "vtkReebGraphGetArc ?rg1 A = Some (a\<lparr>LabelId1 := - 2\<rparr>)"
    using assms by (simp add: GetArc_putArc)
  have g2: "vtkReebGraphGetArc ?rg2 A = Some ?a2"
    using g1 by (simp add: GetArc_putArc)
  show ?thesis
    using assms g1 g2
    by (simp add: vtkReebGraphDeleteArc_def vtkReebGraphClearArc_def modArc_def
          vtkReebGraphNewArc_def Let_def)
       (auto simp add: vtkReebGraphGetArc_def putArc_def deref_update
          dest: deref_Some_inBuffer split: if_splits)
qed

lemma label_delete_new:
  assumes "vtkReebGraphGetLabel rg L = Some l"
  shows "\<exists>rg1 rg2.
           vtkReebGraphDeleteLabel rg L = Some rg1 \<and>
           Number (MainLabelTable rg1) = Number (MainLabelTable rg) - 1 \<and>
           vtkReebGraphNewLabel rg1 = Some (L, rg2) \<and>
           vtkReebGraphGetLabel rg2 L = Some zeroLabel \<and>
           Number (MainLabelTable rg2) = Number (MainLabelTable rg) \<and>
           FreeZone (MainLabelTable rg2) = FreeZone (MainLabelTable rg)"
proof -
  let ?rg1 = "putLabel rg L (l\<lparr>HNext := - 2\<rparr>)"
  let ?l2 = "l\<lparr>HNext := - 2, ArcId := FreeZone (MainLabelTable rg)\<rparr>"
  let ?rg2 = "putLabel ?rg1 L ?l2"
  have g1: "vtkReebGraphGetLabel ?rg1 L = Some (l\<lparr>HNext := - 2\<rparr>)"
    using assms by (simp add: GetLabel_putLabel)
  have g2: "vtkReebGraphGetLabel ?rg2 L = Some ?l2"
    using g1 by (simp add: GetLabel_putLabel)
  show ?thesis
    using assms g1 g2
    by (simp add: vtkReebGraphDeleteLabel_def vtkReebGraphClearLabel_def modLabel_def
          vtkReebGraphNewLabel_def Let_def)
       (auto simp add: vtkReebGraphGetLabel_def putLabel_def deref_update
          dest: deref_Some_inBuffer split: if_splits)
qed


subsection \<open>Facts about the example chain\<close>

lemma chain_node2: "vtkReebGraphGetNode chainGraph 2 =
   Some \<lparr>VertexId = 1, Value = 1, ArcDownId = 1, ArcUpId = 2, IsFinalized = True, IsCritical = False\<rparr>"
  by (simp add: vtkReebGraphGetNode_def chainGraph_def deref_def inBuffer_def)

lemma chain_arc2: "vtkReebGraphGetArc chainGraph 2 =
   Some \<lparr>NodeId0 = 2, ArcUpId0 = 0, ArcDwId0 = 0, NodeId1 = 3, ArcUpId1 = 0, ArcDwId1 = 0,
          LabelId0 = 2, LabelId1 = 2\<rparr>"
  by (simp add: vtkReebGraphGetArc_def chainGraph_def deref_def inBuffer_def)

lemma chain_label2: "vtkReebGraphGetLabel chainGraph 2 =
   Some \<lparr>ArcId = 2, HPrev = 0, HNext = 0, label = 7, VPrev = 1, VNext = 0\<rparr>"
  by (simp add: vtkReebGraphGetLabel_def chainGraph_def deref_def inBuffer_def)


lemma chain_node1: "vtkReebGraphGetNode chainGraph 1 =
   Some \<lparr>VertexId = 0, Value = 0, ArcDownId = 0, ArcUpId = 1, IsFinalized = True, IsCritical = True\<rparr>"
  by (simp add: vtkReebGraphGetNode_def chainGraph_def deref_def inBuffer_def)

lemma chain_node3: "vtkReebGraphGetNode chainGraph 3 =
   Some \<lparr>VertexId = 2, Value = 2, ArcDownId = 2, ArcUpId = 0, IsFinalized = True, IsCritical = True\<rparr>"
  by (simp add: vtkReebGraphGetNode_def chainGraph_def deref_def inBuffer_def)

lemma chain_arc1: "vtkReebGraphGetArc chainGraph 1 =
   Some \<lparr>NodeId0 = 1, ArcUpId0 = 0, ArcDwId0 = 0, NodeId1 = 2, ArcUpId1 = 0, ArcDwId1 = 0,
          LabelId0 = 1, LabelId1 = 1\<rparr>"
  by (simp add: vtkReebGraphGetArc_def chainGraph_def deref_def inBuffer_def)

lemma chain_range: "MinimumScalarValue chainGraph = 0" "MaximumScalarValue chainGraph = 2"
  by (simp_all add: chainGraph_def)

subsection \<open>Facts about the constant field\<close>

lemma flat_nodes:
  "vtkReebGraphGetNode flatGraph 1 =
     Some \<lparr>VertexId = 0, Value = 1, ArcDownId = 0, ArcUpId = 1, IsFinalized = True, IsCritical = True\<rparr>"
  "vtkReebGraphGetNode flatGraph 2 =
     Some \<lparr>VertexId = 1, Value = 1, ArcDownId = 1, ArcUpId = 0, IsFinalized = True, IsCritical = True\<rparr>"
  by (simp_all add: vtkReebGraphGetNode_def flatGraph_def deref_def inBuffer_def)

lemma flat_arc1: "vtkReebGraphGetArc flatGraph 1 =
   Some \<lparr>NodeId0 = 1, ArcUpId0 = 0, ArcDwId0 = 0, NodeId1 = 2, ArcUpId1 = 0, ArcDwId1 = 0,
          LabelId0 = 0, LabelId1 = 0\<rparr>"
  by (simp add: vtkReebGraphGetArc_def flatGraph_def deref_def inBuffer_def)

lemma flat_props: "scalarRangeAttained flatGraph" "allShareOneValue flatGraph"
  by (simp_all add: scalarRangeAttained_def allShareOneValue_def liveNodes_def flatGraph_def zeroNode_def)

lemma chain_props: "scalarRangeAttained chainGraph" "twoDistinctValues chainGraph"
  by (simp_all add: scalarRangeAttained_def twoDistinctValues_def liveNodes_def chainGraph_def zeroNode_def)

lemma chain_bounds: "scalarRangeBounds chainGraph"
  by (simp add: scalarRangeBounds_def liveNodes_def chainGraph_def zeroNode_def)

subsection \<open>Facts about the pruned graph\<close>

lemma pruned_arc1: "vtkReebGraphGetArc prunedGraph 1 =
   Some \<lparr>NodeId0 = 2, ArcUpId0 = 0, ArcDwId0 = 0, NodeId1 = 3, ArcUpId1 = 0, ArcDwId1 = 0,
          LabelId0 = 0, LabelId1 = 0\<rparr>"
  by (simp add: vtkReebGraphGetArc_def prunedGraph_def deref_def inBuffer_def)

lemma pruned_nodes:
  "vtkReebGraphGetNode prunedGraph 2 =
     Some \<lparr>VertexId = 1, Value = 1, ArcDownId = 0, ArcUpId = 1, IsFinalized = True, IsCritical = True\<rparr>"
  "vtkReebGraphGetNode prunedGraph 3 =
     Some \<lparr>VertexId = 2, Value = 1, ArcDownId = 1, ArcUpId = 0, IsFinalized = True, IsCritical = True\<rparr>"
  by (simp_all add: vtkReebGraphGetNode_def prunedGraph_def deref_def inBuffer_def)

lemma leaf_delete: "vtkReebGraphDeleteNode leafGraph 1 = Some prunedGraph"
  by (simp add: vtkReebGraphDeleteNode_def vtkReebGraphClearNode_def modNode_def putNode_def
      vtkReebGraphGetNode_def deref_def inBuffer_def leafGraph_def prunedGraph_def Let_def)

section \<open>The free lists are last-in first-out\<close>

text \<open>
  Claim C9. In each of the three pools, deleting a slot that can be addressed (any id
  other than the null id that lies in the buffer, hence every live slot) and then
  allocating from the same pool returns the same id; the slot comes back with every
  field zero; \<^verbatim>\<open>Number\<close> is one less after the deletion and back to its first value
  after the allocation, and \<^verbatim>\<open>FreeZone\<close> is back to its first value as well.
\<close>

theorem pool_delete_then_new:
  "(vtkReebGraphGetNode rg N = Some n \<longrightarrow>
      (\<exists>rg1 rg2.
         vtkReebGraphDeleteNode rg N = Some rg1 \<and>
         Number (MainNodeTable rg1) = Number (MainNodeTable rg) - 1 \<and>
         vtkReebGraphNewNode rg1 = Some (N, rg2) \<and>
         vtkReebGraphGetNode rg2 N = Some zeroNode \<and>
         Number (MainNodeTable rg2) = Number (MainNodeTable rg) \<and>
         FreeZone (MainNodeTable rg2) = FreeZone (MainNodeTable rg))) \<and>
   (vtkReebGraphGetArc rg A = Some a \<longrightarrow>
      (\<exists>rg1 rg2.
         vtkReebGraphDeleteArc rg A = Some rg1 \<and>
         Number (MainArcTable rg1) = Number (MainArcTable rg) - 1 \<and>
         vtkReebGraphNewArc rg1 = Some (A, rg2) \<and>
         vtkReebGraphGetArc rg2 A = Some zeroArc \<and>
         Number (MainArcTable rg2) = Number (MainArcTable rg) \<and>
         FreeZone (MainArcTable rg2) = FreeZone (MainArcTable rg))) \<and>
   (vtkReebGraphGetLabel rg L = Some l \<longrightarrow>
      (\<exists>rg1 rg2.
         vtkReebGraphDeleteLabel rg L = Some rg1 \<and>
         Number (MainLabelTable rg1) = Number (MainLabelTable rg) - 1 \<and>
         vtkReebGraphNewLabel rg1 = Some (L, rg2) \<and>
         vtkReebGraphGetLabel rg2 L = Some zeroLabel \<and>
         Number (MainLabelTable rg2) = Number (MainLabelTable rg) \<and>
         FreeZone (MainLabelTable rg2) = FreeZone (MainLabelTable rg)))"
  using node_delete_new [of rg N n] arc_delete_new [of rg A a] label_delete_new [of rg L l]
  by blast

theorem pool_delete_then_new_witness:
  "vtkReebGraphGetNode chainGraph 2 \<noteq> None \<and>
   vtkReebGraphGetArc chainGraph 2 \<noteq> None \<and>
   vtkReebGraphGetLabel chainGraph 2 \<noteq> None \<and>
   (\<exists>rg1 rg2.
      vtkReebGraphDeleteNode chainGraph 2 = Some rg1 \<and>
      Number (MainNodeTable rg1) = 2 \<and>
      vtkReebGraphNewNode rg1 = Some (2, rg2) \<and>
      vtkReebGraphGetNode rg2 2 = Some zeroNode \<and>
      Number (MainNodeTable rg2) = 3) \<and>
   (\<exists>rg1 rg2.
      vtkReebGraphDeleteArc chainGraph 2 = Some rg1 \<and>
      Number (MainArcTable rg1) = 1 \<and>
      vtkReebGraphNewArc rg1 = Some (2, rg2) \<and>
      vtkReebGraphGetArc rg2 2 = Some zeroArc \<and>
      Number (MainArcTable rg2) = 2) \<and>
   (\<exists>rg1 rg2.
      vtkReebGraphDeleteLabel chainGraph 2 = Some rg1 \<and>
      Number (MainLabelTable rg1) = 1 \<and>
      vtkReebGraphNewLabel rg1 = Some (2, rg2) \<and>
      vtkReebGraphGetLabel rg2 2 = Some zeroLabel \<and>
      Number (MainLabelTable rg2) = 2)"
proof -
  have nums: "Number (MainNodeTable chainGraph) = 3" "Number (MainArcTable chainGraph) = 2"
    "Number (MainLabelTable chainGraph) = 2"
    by (simp_all add: chainGraph_def)
  obtain n a l where h: "vtkReebGraphGetNode chainGraph 2 = Some n"
    "vtkReebGraphGetArc chainGraph 2 = Some a" "vtkReebGraphGetLabel chainGraph 2 = Some l"
    using chain_node2 chain_arc2 chain_label2 by blast
  from pool_delete_then_new [of chainGraph 2 n 2 a 2 l] h
  show ?thesis
    by (simp add: nums) blast
qed

section \<open>AddArc orders its end nodes\<close>

lemma tie_nodes:
  "vtkReebGraphGetNode tieGraph 1 = Some \<lparr>VertexId = 5, Value = 0, ArcDownId = 0, ArcUpId = 0,
          IsFinalized = False, IsCritical = False\<rparr>"
  "vtkReebGraphGetNode tieGraph 2 = Some \<lparr>VertexId = 3, Value = 0, ArcDownId = 0, ArcUpId = 0,
          IsFinalized = False, IsCritical = False\<rparr>"
  by (simp_all add: vtkReebGraphGetNode_def tieGraph_def deref_def inBuffer_def)

text \<open>
  What \<^verbatim>\<open>AddArc\<close> does for two distinct nodes that can be addressed: it calls
  \<^verbatim>\<open>AddPath\<close> on the same two node ids, the first of them smaller in the order of
  \<^verbatim>\<open>vtkReebGraphIsSmaller\<close>, whatever \<^verbatim>\<open>AddPath\<close> does with its arguments.
\<close>

lemma AddArc_orders_by_IsSmaller:
  assumes "vtkReebGraphGetNode rg nodeId0 = Some node0"
    and "vtkReebGraphGetNode rg nodeId1 = Some node1"
    and "nodeId0 \<noteq> nodeId1"
  shows "\<exists>n0 n1. AddArc AddPath rg nodeId0 nodeId1 = Some (AddPath rg 2 [n0, n1] 0) \<and>
           {n0, n1} = {nodeId0, nodeId1} \<and>
           vtkReebGraphIsSmaller2 rg n0 n1 = Some True"
proof (cases "vtkReebGraphIsSmaller nodeId0 nodeId1 node0 node1")
  case True
  with assms have "AddArc AddPath rg nodeId0 nodeId1 = Some (AddPath rg 2 [nodeId0, nodeId1] 0)"
    and "vtkReebGraphIsSmaller2 rg nodeId0 nodeId1 = Some True"
    by (simp_all add: AddArc_def vtkReebGraphIsSmaller2_def)
  then show ?thesis by blast
next
  case False
  with assms have sw: "vtkReebGraphIsSmaller nodeId1 nodeId0 node1 node0"
    by (auto simp: vtkReebGraphIsSmaller_def)
  from False assms have "AddArc AddPath rg nodeId0 nodeId1 = Some (AddPath rg 2 [nodeId1, nodeId0] 0)"
    by (simp add: AddArc_def vtkReebGraphIsSmaller2_def)
  moreover from sw assms have "vtkReebGraphIsSmaller2 rg nodeId1 nodeId0 = Some True"
    by (simp add: vtkReebGraphIsSmaller2_def)
  moreover have "{nodeId1, nodeId0} = {nodeId0, nodeId1}" by auto
  ultimately show ?thesis by blast
qed

text \<open>
  Claim C1, at a failing input. The claim has \<^verbatim>\<open>AddArc\<close> order the two end nodes by
  value and, at equal values, by the vertex id of the mesh. In \<open>tieGraph\<close> nodes 1 and
  2 have the same value and the vertex ids 5 and 3, so the node of vertex 3 is the lower
  one in the order \<open>less\<close> of the specification and in the header's own
  \<^verbatim>\<open>vtkReebGraphVertexSoS\<close>. \<^verbatim>\<open>AddArc\<close>, called with the two nodes in either order,
  hands the table \<open>[1, 2]\<close> to \<^verbatim>\<open>AddPath\<close>: the arc goes from the node of vertex 5 to
  the node of vertex 3. The header disagrees with itself there: node 1 is smaller than
  node 2 for \<^verbatim>\<open>vtkReebGraphIsSmaller2\<close> and higher than node 2 for
  \<^verbatim>\<open>vtkReebGraphIsHigherThan2\<close>.
\<close>

theorem AddArc_tie_broken_by_node_id:
  "map_option node_key (vtkReebGraphGetNode tieGraph 1) = Some (0, 5) \<and>
   map_option node_key (vtkReebGraphGetNode tieGraph 2) = Some (0, 3) \<and>
   AddArc tablePassedToAddPath tieGraph 1 2 = Some [1, 2] \<and>
   AddArc tablePassedToAddPath tieGraph 2 1 = Some [1, 2] \<and>
   \<not> less_spec (0, 5) (0, 3) \<and>
   less_spec (0, 3) (0, 5) \<and>
   \<not> vtkReebGraphVertexSoS (5, 0) (3, 0) \<and>
   vtkReebGraphIsSmaller2 tieGraph 1 2 = Some True \<and>
   vtkReebGraphIsHigherThan2 tieGraph 1 2 = Some True"
  by (simp add: AddArc_def vtkReebGraphIsSmaller2_def vtkReebGraphIsSmaller_def tie_nodes
      vtkReebGraphIsHigherThan2_def vtkReebGraphIsHigherThan_def
      tablePassedToAddPath_def node_key_def less_spec_def vtkReebGraphVertexSoS_def)

section \<open>The comparison of candidate paths\<close>

text \<open>
  Claim C3, as stated, at a concrete input. The claim has \<^verbatim>\<open>operator<\<close> irreflexive
  and true of the candidate of smaller persistence; on the path \<open>pathA\<close> compared with
  itself the operator returns true, and on \<open>pathB\<close>, of smaller value, compared with
  \<open>pathA\<close> it returns false.
\<close>

theorem vtkReebPath_less_reflexive_counterexample:
  "vtkReebPath_less pathA pathA = Some True \<and>
   SimplificationValue pathB < SimplificationValue pathA \<and>
   vtkReebPath_less pathB pathA = Some False"
  by (simp add: vtkReebPath_less_def pathA_def pathB_def lastNode_def deref_def inBuffer_def)

lemma vtkReebPath_less_key:
  assumes "path_key P = Some k" and "path_key E = Some k'"
  shows "vtkReebPath_less P E = Some (\<not> ranks_before k k')"
proof -
  obtain x y where x: "lastNode P = Some x" and y: "lastNode E = Some y"
    and k: "k = (SimplificationValue P, ArcNumber P, x)"
    and k': "k' = (SimplificationValue E, ArcNumber E, y)"
    using assms by (auto simp: path_key_def)
  show ?thesis
    unfolding k k' by (auto simp add: vtkReebPath_less_def ranks_before_def x y)
qed

lemma ranks_before_total:
  "k \<noteq> k' \<Longrightarrow> ranks_before k k' = (\<not> ranks_before k' k)"
  by (cases k; cases k') (simp add: ranks_before_def; linarith)

text \<open>
  Claim C3, amended. For two paths whose last node can be read and whose keys
  (value, arc number, last node id) differ, exactly one of \<open>P < E\<close> and \<open>E < P\<close>
  holds, and \<open>P < E\<close> holds exactly when \<open>E\<close> comes before \<open>P\<close> in the ranking:
  smaller value, then fewer arcs, then smaller last node id. The operator is the
  reverse of the ranking, as a priority queue that serves the best candidate first
  needs it.
\<close>

theorem vtkReebPath_less_distinct_keys:
  assumes "path_key P = Some k" and "path_key E = Some k'" and "k \<noteq> k'"
  shows "vtkReebPath_less P E = Some (ranks_before k' k) \<and>
         vtkReebPath_less E P = Some (ranks_before k k') \<and>
         ranks_before k k' \<noteq> ranks_before k' k"
  using vtkReebPath_less_key [OF assms(1,2)] vtkReebPath_less_key [OF assms(2,1)]
    ranks_before_total [OF assms(3)]
  by simp

theorem vtkReebPath_less_distinct_keys_witness:
  "path_key pathA = Some (1 / 2, 1, 2) \<and> path_key pathB = Some (1 / 4, 2, 4) \<and>
   vtkReebPath_less pathA pathB = Some True \<and> vtkReebPath_less pathB pathA = Some False"
proof -
  have a: "path_key pathA = Some (1 / 2, 1, 2)" and b: "path_key pathB = Some (1 / 4, 2, 4)"
    by (simp_all add: path_key_def lastNode_def pathA_def pathB_def deref_def inBuffer_def)
  have ne: "((1 / 2, 1, 2) :: real \<times> int \<times> int) \<noteq> (1 / 4, 2, 4)" by simp
  from vtkReebPath_less_distinct_keys [OF a b ne] a b show ?thesis
    by (simp add: ranks_before_def)
qed

section \<open>Persistence\<close>

text \<open>
  Claim C4. For an arc whose two end nodes can be addressed, and a graph whose scalar
  span is not zero, the persistence computed by \<^verbatim>\<open>vtkReebGraphGetArcPersistence\<close>
  (the computation used when no metric is supplied) is the value of the upper end
  minus the value of the lower end, divided by
  \<^verbatim>\<open>MaximumScalarValue - MinimumScalarValue\<close>.
\<close>

theorem GetArcPersistence_normalized_difference:
  assumes "vtkReebGraphGetNode rg (NodeId0 a) = Some n0"
    and "vtkReebGraphGetNode rg (NodeId1 a) = Some n1"
    and "MaximumScalarValue rg \<noteq> MinimumScalarValue rg"
  shows "vtkReebGraphGetArcPersistence rg a =
           Inr ((Value n1 - Value n0) / (MaximumScalarValue rg - MinimumScalarValue rg))"
  using assms by (simp add: vtkReebGraphGetArcPersistence_def)

theorem GetArcPersistence_normalized_difference_witness:
  "(\<exists>a. vtkReebGraphGetArc chainGraph 1 = Some a \<and>
        vtkReebGraphGetNode chainGraph (NodeId0 a) \<noteq> None \<and>
        vtkReebGraphGetNode chainGraph (NodeId1 a) \<noteq> None \<and>
        MaximumScalarValue chainGraph \<noteq> MinimumScalarValue chainGraph \<and>
        vtkReebGraphGetArcPersistence chainGraph a = Inr (1 / 2))"
proof -
  let ?a = "\<lparr>NodeId0 = 1, ArcUpId0 = 0, ArcDwId0 = 0, NodeId1 = 2, ArcUpId1 = 0, ArcDwId1 = 0,
          LabelId0 = 1, LabelId1 = 1\<rparr>"
  have n0: "vtkReebGraphGetNode chainGraph (NodeId0 ?a) = Some \<lparr>VertexId = 0, Value = 0, ArcDownId = 0, ArcUpId = 1, IsFinalized = True, IsCritical = True\<rparr>"
    by (simp add: chain_node1)
  have n1: "vtkReebGraphGetNode chainGraph (NodeId1 ?a) =  Some \<lparr>VertexId = 1, Value = 1, ArcDownId = 1, ArcUpId = 2, IsFinalized = True, IsCritical = False\<rparr>"
    by (simp add: chain_node2)
  have r: "MaximumScalarValue chainGraph \<noteq> MinimumScalarValue chainGraph"
    by (simp add: chain_range)
  from GetArcPersistence_normalized_difference [OF n0 n1 r] n0 n1 r chain_arc1
  show ?thesis by (simp add: chain_range)
qed

lemma attained_shared_range:
  assumes "scalarRangeAttained rg" and "allShareOneValue rg"
  shows "MaximumScalarValue rg = MinimumScalarValue rg"
proof -
  from assms(1) have "\<exists>n\<in>set (liveNodes rg). Value n = MinimumScalarValue rg"
    and "\<exists>m\<in>set (liveNodes rg). Value m = MaximumScalarValue rg"
    unfolding scalarRangeAttained_def list_ex_iff by blast+
  then obtain n m where n: "n \<in> set (liveNodes rg)" and nv: "Value n = MinimumScalarValue rg"
    and m: "m \<in> set (liveNodes rg)" and mv: "Value m = MaximumScalarValue rg"
    by blast
  from assms(2) have "\<forall>n\<in>set (liveNodes rg). \<forall>m\<in>set (liveNodes rg). Value n = Value m"
    unfolding allShareOneValue_def list_all_iff .
  with n m have "Value n = Value m" by blast
  with nv mv show ?thesis by metis
qed

lemma not_shared_two_distinct: "\<not> allShareOneValue rg \<Longrightarrow> twoDistinctValues rg"
  by (auto simp: allShareOneValue_def twoDistinctValues_def list_all_iff list_ex_iff)

lemma distinct_values_span:
  assumes "twoDistinctValues rg" and "scalarRangeBounds rg"
  shows "MaximumScalarValue rg \<noteq> MinimumScalarValue rg"
proof -
  from assms(1) obtain n m where n: "n \<in> set (liveNodes rg)" and m: "m \<in> set (liveNodes rg)"
    and ne: "Value n \<noteq> Value m"
    unfolding twoDistinctValues_def list_ex_iff by blast
  from assms(2) have b: "\<forall>n\<in>set (liveNodes rg).
      MinimumScalarValue rg \<le> Value n \<and> Value n \<le> MaximumScalarValue rg"
    unfolding scalarRangeBounds_def list_all_iff .
  from b n have "MinimumScalarValue rg \<le> Value n" "Value n \<le> MaximumScalarValue rg" by blast+
  moreover from b m have "MinimumScalarValue rg \<le> Value m" "Value m \<le> MaximumScalarValue rg"
    by blast+
  ultimately show ?thesis using ne by linarith
qed

text \<open>
  Claim C10, as stated, at a concrete input. The claim has the persistence divide by
  zero in every graph whose nodes all share one scalar value. In \<open>leafGraph\<close> the
  bounds 0 and 1 are the values of nodes; \<^verbatim>\<open>vtkReebGraphDeleteNode\<close> of node 1, the
  node of value 0, leaves the bounds as they were. In the graph it returns the two live
  nodes share the value 1 and lie between the bounds, and the persistence of the arc that
  joins them is computed, with the value 0: no division by zero.
\<close>

theorem GetArcPersistence_shared_value_counterexample:
  "scalarRangeBounds leafGraph \<and> scalarRangeAttained leafGraph \<and>
   vtkReebGraphDeleteNode leafGraph 1 = Some prunedGraph \<and>
   scalarRangeBounds prunedGraph \<and> \<not> scalarRangeAttained prunedGraph \<and>
   allShareOneValue prunedGraph \<and>
   \<not> twoDistinctValues prunedGraph \<and>
   vtkReebGraphGetArc prunedGraph 1 =
     Some \<lparr>NodeId0 = 2, ArcUpId0 = 0, ArcDwId0 = 0, NodeId1 = 3, ArcUpId1 = 0, ArcDwId1 = 0,
           LabelId0 = 0, LabelId1 = 0\<rparr> \<and>
   vtkReebGraphGetArcPersistence prunedGraph
     \<lparr>NodeId0 = 2, ArcUpId0 = 0, ArcDwId0 = 0, NodeId1 = 3, ArcUpId1 = 0, ArcDwId1 = 0,
      LabelId0 = 0, LabelId1 = 0\<rparr> = Inr 0"
  by (simp add: leaf_delete pruned_arc1 vtkReebGraphGetArcPersistence_def pruned_nodes)
     (simp add: scalarRangeBounds_def scalarRangeAttained_def allShareOneValue_def twoDistinctValues_def liveNodes_def
        leafGraph_def prunedGraph_def zeroNode_def)

text \<open>
  Claim C10, amended. The macro divides with no guard: for an arc whose end nodes can
  be addressed the computation is a division by zero exactly when the two bounds are
  equal. In a graph whose two bounds are values of live nodes, live nodes that all share
  one value make it a division by zero, and a persistence is only obtained when two live
  nodes have distinct values. In a graph whose node values lie between the bounds, two
  live nodes with distinct values make the division a proper one.
\<close>

theorem GetArcPersistence_zero_span:
  assumes "vtkReebGraphGetNode rg (NodeId0 a) = Some n0"
    and "vtkReebGraphGetNode rg (NodeId1 a) = Some n1"
  shows "(vtkReebGraphGetArcPersistence rg a = Inl DivisionByZero) =
           (MaximumScalarValue rg = MinimumScalarValue rg) \<and>
         (scalarRangeAttained rg \<and> allShareOneValue rg \<longrightarrow>
            vtkReebGraphGetArcPersistence rg a = Inl DivisionByZero) \<and>
         (scalarRangeAttained rg \<and> (\<exists>p. vtkReebGraphGetArcPersistence rg a = Inr p) \<longrightarrow>
            twoDistinctValues rg) \<and>
         (scalarRangeBounds rg \<and> twoDistinctValues rg \<longrightarrow>
            (\<exists>p. vtkReebGraphGetArcPersistence rg a = Inr p))"
proof -
  have z: "(vtkReebGraphGetArcPersistence rg a = Inl DivisionByZero) =
           (MaximumScalarValue rg = MinimumScalarValue rg)"
    using assms by (simp add: vtkReebGraphGetArcPersistence_def)
  have s: "scalarRangeAttained rg \<and> allShareOneValue rg \<longrightarrow>
            vtkReebGraphGetArcPersistence rg a = Inl DivisionByZero"
    using z attained_shared_range [of rg] by blast
  have o: "scalarRangeAttained rg \<and> (\<exists>p. vtkReebGraphGetArcPersistence rg a = Inr p) \<longrightarrow>
            twoDistinctValues rg"
  proof (intro impI)
    assume h: "scalarRangeAttained rg \<and> (\<exists>p. vtkReebGraphGetArcPersistence rg a = Inr p)"
    then have "vtkReebGraphGetArcPersistence rg a \<noteq> Inl DivisionByZero" by auto
    with s h have "\<not> allShareOneValue rg" by blast
    then show "twoDistinctValues rg" by (rule not_shared_two_distinct)
  qed
  have c: "scalarRangeBounds rg \<and> twoDistinctValues rg \<longrightarrow>
            (\<exists>p. vtkReebGraphGetArcPersistence rg a = Inr p)"
    using assms distinct_values_span [of rg]
    by (auto simp: vtkReebGraphGetArcPersistence_def)
  from z s o c show ?thesis by blast
qed

theorem GetArcPersistence_zero_span_witness:
  "(\<exists>a. vtkReebGraphGetArc flatGraph 1 = Some a \<and>
        vtkReebGraphGetNode flatGraph (NodeId0 a) \<noteq> None \<and>
        vtkReebGraphGetNode flatGraph (NodeId1 a) \<noteq> None \<and>
        MaximumScalarValue flatGraph = MinimumScalarValue flatGraph \<and>
        scalarRangeAttained flatGraph \<and> allShareOneValue flatGraph \<and>
        vtkReebGraphGetArcPersistence flatGraph a = Inl DivisionByZero) \<and>
   (\<exists>a. vtkReebGraphGetArc chainGraph 1 = Some a \<and>
        vtkReebGraphGetNode chainGraph (NodeId0 a) \<noteq> None \<and>
        vtkReebGraphGetNode chainGraph (NodeId1 a) \<noteq> None \<and>
        scalarRangeAttained chainGraph \<and> scalarRangeBounds chainGraph \<and>
        twoDistinctValues chainGraph \<and>
        MaximumScalarValue chainGraph \<noteq> MinimumScalarValue chainGraph \<and>
        vtkReebGraphGetArcPersistence chainGraph a = Inr (1 / 2))"
proof -
  let ?f = "\<lparr>NodeId0 = 1, ArcUpId0 = 0, ArcDwId0 = 0, NodeId1 = 2, ArcUpId1 = 0, ArcDwId1 = 0,
          LabelId0 = 0, LabelId1 = 0\<rparr>"
  let ?c = "\<lparr>NodeId0 = 1, ArcUpId0 = 0, ArcDwId0 = 0, NodeId1 = 2, ArcUpId1 = 0, ArcDwId1 = 0,
          LabelId0 = 1, LabelId1 = 1\<rparr>"
  have f0: "vtkReebGraphGetNode flatGraph (NodeId0 ?f) =
              Some \<lparr>VertexId = 0, Value = 1, ArcDownId = 0, ArcUpId = 1,
                    IsFinalized = True, IsCritical = True\<rparr>"
    and f1: "vtkReebGraphGetNode flatGraph (NodeId1 ?f) =
              Some \<lparr>VertexId = 1, Value = 1, ArcDownId = 1, ArcUpId = 0,
                    IsFinalized = True, IsCritical = True\<rparr>"
    by (simp_all add: flat_nodes)
  have c0: "vtkReebGraphGetNode chainGraph (NodeId0 ?c) =
              Some \<lparr>VertexId = 0, Value = 0, ArcDownId = 0, ArcUpId = 1,
                    IsFinalized = True, IsCritical = True\<rparr>"
    and c1: "vtkReebGraphGetNode chainGraph (NodeId1 ?c) =
              Some \<lparr>VertexId = 1, Value = 1, ArcDownId = 1, ArcUpId = 2,
                    IsFinalized = True, IsCritical = False\<rparr>"
    by (simp_all add: chain_node1 chain_node2)
  have fr: "MaximumScalarValue flatGraph = MinimumScalarValue flatGraph"
    by (simp add: flatGraph_def)
  have cr: "MaximumScalarValue chainGraph \<noteq> MinimumScalarValue chainGraph"
    by (simp add: chain_range)
  have p: "vtkReebGraphGetArcPersistence chainGraph ?c = Inr (1 / 2)"
    by (simp add: vtkReebGraphGetArcPersistence_def chain_node1 chain_node2 chain_range)
  from GetArcPersistence_zero_span [OF f0 f1] flat_props
  have A: "vtkReebGraphGetArcPersistence flatGraph ?f = Inl DivisionByZero" by blast
  from GetArcPersistence_zero_span [OF c0 c1] chain_props(1) p
  have B: "twoDistinctValues chainGraph" by blast
  from GetArcPersistence_zero_span [OF c0 c1] chain_bounds B
  have C: "\<exists>q. vtkReebGraphGetArcPersistence chainGraph ?c = Inr q" by blast
  show ?thesis
    using A B p f0 f1 c0 c1 fr cr flat_props chain_props(1) chain_bounds flat_arc1 chain_arc1
    by simp
qed

section \<open>Build\<close>

text \<open>
  Claim C6. The three constants of the \<^verbatim>\<open>enum\<close> are \<open>-1\<close>, \<open>-2\<close> and \<open>-3\<close>.
  \<^verbatim>\<open>Build\<close> returns \<open>-2\<close> when the field is absent, \<open>-1\<close> when its number of
  tuples differs from the number of vertices of the mesh, \<open>-3\<close> when the sizes agree
  and some cell is not a simplex, and \<open>0\<close> otherwise.
\<close>

theorem Build_return_codes:
  "ERR_INCORRECT_FIELD = - 1 \<and> ERR_NO_SUCH_FIELD = - 2 \<and> ERR_NOT_A_SIMPLICIAL_MESH = - 3 \<and>
   Build simplexSize mesh None = - 2 \<and>
   (tuples \<noteq> NumberOfPoints mesh \<longrightarrow> Build simplexSize mesh (Some tuples) = - 1) \<and>
   (tuples = NumberOfPoints mesh \<and> list_ex (\<lambda>c. c \<noteq> simplexSize) (CellSizes mesh) \<longrightarrow>
      Build simplexSize mesh (Some tuples) = - 3) \<and>
   (tuples = NumberOfPoints mesh \<and> list_all (\<lambda>c. c = simplexSize) (CellSizes mesh) \<longrightarrow>
      Build simplexSize mesh (Some tuples) = 0)"
  by (auto simp: Build_def ERR_INCORRECT_FIELD_def ERR_NO_SUCH_FIELD_def
      ERR_NOT_A_SIMPLICIAL_MESH_def list_ex_iff list_all_iff)

theorem Build_return_codes_witness:
  "Build 3 \<lparr>NumberOfPoints = 4, CellSizes = [3, 3]\<rparr> None = - 2 \<and>
   Build 3 \<lparr>NumberOfPoints = 4, CellSizes = [3, 3]\<rparr> (Some 5) = - 1 \<and>
   Build 3 \<lparr>NumberOfPoints = 4, CellSizes = [3, 4]\<rparr> (Some 4) = - 3 \<and>
   Build 3 \<lparr>NumberOfPoints = 4, CellSizes = [3, 3]\<rparr> (Some 4) = 0"
  using Build_return_codes [of 3 "\<lparr>NumberOfPoints = 4, CellSizes = [3, 3]\<rparr>" 5]
    Build_return_codes [of 3 "\<lparr>NumberOfPoints = 4, CellSizes = [3, 4]\<rparr>" 4]
    Build_return_codes [of 3 "\<lparr>NumberOfPoints = 4, CellSizes = [3, 3]\<rparr>" 4]
  by simp

section \<open>Regular nodes\<close>

text \<open>A walk that returns has counted upwards from its starting count.\<close>

lemma downDegreeWalk_ge:
  assumes "downDegreeWalk rg A dst = Some r"
  shows "dst \<le> r"
proof (rule downDegreeWalk.raw_induct [where P = "\<lambda>rg A dst r. dst \<le> r", OF _ assms])
  fix walk :: "vtkReebGraph \<Rightarrow> int \<Rightarrow> int \<Rightarrow> int option" and rg' A' dst' r'
  assume IH: "\<And>g B d y. walk g B d = Some y \<Longrightarrow> d \<le> y"
    and eq: "(if A' = 0 then Some dst'
              else case vtkReebGraphGetArc rg' A' of
                     None \<Rightarrow> None
                   | Some a \<Rightarrow> walk rg' (ArcDwId1 a) (dst' + 1)) = Some r'"
  show "dst' \<le> r'"
  proof (cases "A' = 0")
    case True
    with eq show ?thesis by simp
  next
    case False
    with eq obtain a :: vtkReebArc where "walk rg' (ArcDwId1 a) (dst' + 1) = Some r'"
      by (auto split: option.splits)
    then have "dst' + 1 \<le> r'" by (rule IH)
    then show ?thesis by simp
  qed
qed

lemma upDegreeWalk_ge:
  assumes "upDegreeWalk rg A dst = Some r"
  shows "dst \<le> r"
proof (rule upDegreeWalk.raw_induct [where P = "\<lambda>rg A dst r. dst \<le> r", OF _ assms])
  fix walk :: "vtkReebGraph \<Rightarrow> int \<Rightarrow> int \<Rightarrow> int option" and rg' A' dst' r'
  assume IH: "\<And>g B d y. walk g B d = Some y \<Longrightarrow> d \<le> y"
    and eq: "(if A' = 0 then Some dst'
              else case vtkReebGraphGetArc rg' A' of
                     None \<Rightarrow> None
                   | Some a \<Rightarrow> walk rg' (ArcDwId0 a) (dst' + 1)) = Some r'"
  show "dst' \<le> r'"
  proof (cases "A' = 0")
    case True
    with eq show ?thesis by simp
  next
    case False
    with eq obtain a :: vtkReebArc where "walk rg' (ArcDwId0 a) (dst' + 1) = Some r'"
      by (auto split: option.splits)
    then have "dst' + 1 \<le> r'" by (rule IH)
    then show ?thesis by simp
  qed
qed

lemma downDegreeWalk_null: "downDegreeWalk rg 0 dst = Some dst"
  by (subst downDegreeWalk.simps) simp

lemma downDegreeWalk_step:
  "A \<noteq> 0 \<Longrightarrow> downDegreeWalk rg A dst =
     (case vtkReebGraphGetArc rg A of
        None \<Rightarrow> None
      | Some a \<Rightarrow> downDegreeWalk rg (ArcDwId1 a) (dst + 1))"
  by (subst downDegreeWalk.simps) simp

lemma upDegreeWalk_null: "upDegreeWalk rg 0 dst = Some dst"
  by (subst upDegreeWalk.simps) simp

lemma upDegreeWalk_step:
  "A \<noteq> 0 \<Longrightarrow> upDegreeWalk rg A dst =
     (case vtkReebGraphGetArc rg A of
        None \<Rightarrow> None
      | Some a \<Rightarrow> upDegreeWalk rg (ArcDwId0 a) (dst + 1))"
  by (subst upDegreeWalk.simps) simp

lemma downDegree_one:
  assumes "downDegreeWalk rg A 0 = Some d"
  shows "(if A = 0 then Some False
          else case vtkReebGraphGetArc rg A of
                 None \<Rightarrow> None | Some a \<Rightarrow> Some (ArcDwId1 a = 0)) = Some (d = 1)"
proof (cases "A = 0")
  case True
  with assms show ?thesis by (simp add: downDegreeWalk_null)
next
  case False
  with assms obtain a where a: "vtkReebGraphGetArc rg A = Some a"
    and w: "downDegreeWalk rg (ArcDwId1 a) 1 = Some d"
    by (auto simp: downDegreeWalk_step split: option.splits)
  show ?thesis
  proof (cases "ArcDwId1 a = 0")
    case True
    with w have "d = 1" by (simp add: downDegreeWalk_null)
    with a True False show ?thesis by simp
  next
    case nz: False
    with w obtain b :: vtkReebArc where "downDegreeWalk rg (ArcDwId1 b) 2 = Some d"
      by (auto simp: downDegreeWalk_step split: option.splits)
    then have "2 \<le> d" by (rule downDegreeWalk_ge)
    with a nz False show ?thesis by simp
  qed
qed

lemma upDegree_one:
  assumes "upDegreeWalk rg A 0 = Some d"
  shows "(if A = 0 then Some False
          else case vtkReebGraphGetArc rg A of
                 None \<Rightarrow> None | Some a \<Rightarrow> Some (ArcDwId0 a = 0)) = Some (d = 1)"
proof (cases "A = 0")
  case True
  with assms show ?thesis by (simp add: upDegreeWalk_null)
next
  case False
  with assms obtain a where a: "vtkReebGraphGetArc rg A = Some a"
    and w: "upDegreeWalk rg (ArcDwId0 a) 1 = Some d"
    by (auto simp: upDegreeWalk_step split: option.splits)
  show ?thesis
  proof (cases "ArcDwId0 a = 0")
    case True
    with w have "d = 1" by (simp add: upDegreeWalk_null)
    with a True False show ?thesis by simp
  next
    case nz: False
    with w obtain b :: vtkReebArc where "upDegreeWalk rg (ArcDwId0 b) 2 = Some d"
      by (auto simp: upDegreeWalk_step split: option.splits)
    then have "2 \<le> d" by (rule upDegreeWalk_ge)
    with a nz False show ?thesis by simp
  qed
qed

text \<open>
  Claim C8. For a node whose down walk and up walk both return a count (the two lists
  are well formed: they reach the null id inside the buffer), the test of
  \<^verbatim>\<open>vtkReebGraphIsRegular\<close> returns, and its answer is the test of the
  specification: the node is not critical, its down-degree is 1 and its up-degree is 1.
\<close>

theorem IsRegular_iff_degrees_one:
  assumes "vtkReebGraphGetNode rg N = Some n"
    and "vtkReebGraphGetDownDegree rg N = Some downDegree"
    and "vtkReebGraphGetUpDegree rg N = Some upDegree"
  shows "vtkReebGraphIsRegular rg n = Some (is_regular_spec (IsCritical n) downDegree upDegree)"
proof -
  from assms(1,2) have d: "downDegreeWalk rg (ArcDownId n) 0 = Some downDegree"
    by (simp add: vtkReebGraphGetDownDegree_def)
  from assms(1,3) have u: "upDegreeWalk rg (ArcUpId n) 0 = Some upDegree"
    by (simp add: vtkReebGraphGetUpDegree_def)
  note D = downDegree_one [OF d] and U = upDegree_one [OF u]
  show ?thesis
  proof (cases "IsCritical n \<or> ArcDownId n = 0")
    case True
    with D show ?thesis
      by (auto simp: vtkReebGraphIsRegular_def is_regular_spec_def)
  next
    case False
    with D obtain ad where ad: "vtkReebGraphGetArc rg (ArcDownId n) = Some ad"
      and dd: "(ArcDwId1 ad = 0) = (downDegree = 1)"
      by (auto split: option.splits)
    show ?thesis
    proof (cases "ArcDwId1 ad \<noteq> 0 \<or> ArcUpId n = 0")
      case True
      with False ad dd U show ?thesis
        by (auto simp: vtkReebGraphIsRegular_def is_regular_spec_def)
    next
      case f2: False
      with U obtain au where "vtkReebGraphGetArc rg (ArcUpId n) = Some au"
        and "(ArcDwId0 au = 0) = (upDegree = 1)"
        by (auto split: option.splits)
      with False f2 ad dd show ?thesis
        by (simp add: vtkReebGraphIsRegular_def is_regular_spec_def)
    qed
  qed
qed

theorem IsRegular_iff_degrees_one_witness:
  "vtkReebGraphGetNode chainGraph 2 \<noteq> None \<and>
   vtkReebGraphGetDownDegree chainGraph 2 = Some 1 \<and>
   vtkReebGraphGetUpDegree chainGraph 2 = Some 1 \<and>
   (\<exists>n. vtkReebGraphGetNode chainGraph 2 = Some n \<and>
        vtkReebGraphIsRegular chainGraph n = Some True)"
proof -
  have d: "vtkReebGraphGetDownDegree chainGraph 2 = Some 1"
    by (simp add: vtkReebGraphGetDownDegree_def chain_node2 downDegreeWalk_step chain_arc1
        downDegreeWalk_null)
  have u: "vtkReebGraphGetUpDegree chainGraph 2 = Some 1"
    by (simp add: vtkReebGraphGetUpDegree_def chain_node2 upDegreeWalk_step chain_arc2
        upDegreeWalk_null)
  from IsRegular_iff_degrees_one [OF chain_node2 d u] d u chain_node2
  show ?thesis by (simp add: is_regular_spec_def)
qed

section \<open>Vertex collapse\<close>

subsection \<open>Writes that leave the other tables alone\<close>

lemma GetLabel_None_putLabel [simp]:
  "(vtkReebGraphGetLabel (putLabel rg L x) M = None) = (vtkReebGraphGetLabel rg M = None)"
  by (simp add: vtkReebGraphGetLabel_def putLabel_def deref_def inBuffer_def)

lemma GetArc_None_putArc [simp]:
  "(vtkReebGraphGetArc (putArc rg A x) B = None) = (vtkReebGraphGetArc rg B = None)"
  by (simp add: vtkReebGraphGetArc_def putArc_def deref_def inBuffer_def)

lemma GetNode_None_putNode [simp]:
  "(vtkReebGraphGetNode (putNode rg N x) M = None) = (vtkReebGraphGetNode rg M = None)"
  by (simp add: vtkReebGraphGetNode_def putNode_def deref_def inBuffer_def)

lemma putLabel_tables [simp]:
  "MainArcTable (putLabel rg L x) = MainArcTable rg"
  "MainNodeTable (putLabel rg L x) = MainNodeTable rg"
  "Number (MainLabelTable (putLabel rg L x)) = Number (MainLabelTable rg)"
  "FreeZone (MainLabelTable (putLabel rg L x)) = FreeZone (MainLabelTable rg)"
  by (simp_all add: putLabel_def)

lemma putArc_tables [simp]:
  "MainLabelTable (putArc rg A x) = MainLabelTable rg"
  "MainNodeTable (putArc rg A x) = MainNodeTable rg"
  "Number (MainArcTable (putArc rg A x)) = Number (MainArcTable rg)"
  "FreeZone (MainArcTable (putArc rg A x)) = FreeZone (MainArcTable rg)"
  by (simp_all add: putArc_def)

lemma putNode_tables [simp]:
  "MainLabelTable (putNode rg N x) = MainLabelTable rg"
  "MainArcTable (putNode rg N x) = MainArcTable rg"
  "Number (MainNodeTable (putNode rg N x)) = Number (MainNodeTable rg)"
  "FreeZone (MainNodeTable (putNode rg N x)) = FreeZone (MainNodeTable rg)"
  by (simp_all add: putNode_def)

lemma GetLabel_same_table:
  "MainLabelTable rg' = MainLabelTable rg \<Longrightarrow>
   vtkReebGraphGetLabel rg' M = vtkReebGraphGetLabel rg M"
  by (simp add: vtkReebGraphGetLabel_def)

lemma GetArc_same_table:
  "MainArcTable rg' = MainArcTable rg \<Longrightarrow>
   vtkReebGraphGetArc rg' A = vtkReebGraphGetArc rg A"
  by (simp add: vtkReebGraphGetArc_def)

lemma GetNode_same_table:
  "MainNodeTable rg' = MainNodeTable rg \<Longrightarrow>
   vtkReebGraphGetNode rg' N = vtkReebGraphGetNode rg N"
  by (simp add: vtkReebGraphGetNode_def)

subsection \<open>What a deletion leaves\<close>

lemma DeleteLabel_effect:
  assumes "vtkReebGraphGetLabel rg L = Some l"
  shows "\<exists>rg'. vtkReebGraphDeleteLabel rg L = Some rg' \<and>
           MainArcTable rg' = MainArcTable rg \<and> MainNodeTable rg' = MainNodeTable rg \<and>
           Number (MainLabelTable rg') = Number (MainLabelTable rg) - 1 \<and>
           FreeZone (MainLabelTable rg') = L \<and>
           (\<forall>M. vtkReebGraphGetLabel rg' M =
                  (if M = L then Some (l\<lparr>HNext := - 2, ArcId := FreeZone (MainLabelTable rg)\<rparr>)
                   else vtkReebGraphGetLabel rg M))"
proof -
  let ?rg1 = "putLabel rg L (l\<lparr>HNext := - 2\<rparr>)"
  have g1: "vtkReebGraphGetLabel ?rg1 L = Some (l\<lparr>HNext := - 2\<rparr>)"
    using assms by (simp add: GetLabel_putLabel)
  show ?thesis
    using assms g1
    by (simp add: vtkReebGraphDeleteLabel_def vtkReebGraphClearLabel_def modLabel_def Let_def
        GetLabel_putLabel)
       (auto simp: vtkReebGraphGetLabel_def putLabel_def deref_update
          dest: deref_Some_inBuffer split: if_splits)
qed

lemma DeleteArc_effect:
  assumes "vtkReebGraphGetArc rg A = Some a"
  shows "\<exists>rg'. vtkReebGraphDeleteArc rg A = Some rg' \<and>
           MainLabelTable rg' = MainLabelTable rg \<and> MainNodeTable rg' = MainNodeTable rg \<and>
           Number (MainArcTable rg') = Number (MainArcTable rg) - 1 \<and>
           FreeZone (MainArcTable rg') = A \<and>
           (\<forall>B. vtkReebGraphGetArc rg' B =
                  (if B = A then Some (a\<lparr>LabelId1 := - 2, LabelId0 := FreeZone (MainArcTable rg)\<rparr>)
                   else vtkReebGraphGetArc rg B))"
proof -
  let ?rg1 = "putArc rg A (a\<lparr>LabelId1 := - 2\<rparr>)"
  have g1: "vtkReebGraphGetArc ?rg1 A = Some (a\<lparr>LabelId1 := - 2\<rparr>)"
    using assms by (simp add: GetArc_putArc)
  show ?thesis
    using assms g1
    by (simp add: vtkReebGraphDeleteArc_def vtkReebGraphClearArc_def modArc_def Let_def
        GetArc_putArc)
       (auto simp: vtkReebGraphGetArc_def putArc_def deref_update
          dest: deref_Some_inBuffer split: if_splits)
qed

lemma DeleteNode_effect:
  assumes "vtkReebGraphGetNode rg N = Some n"
  shows "\<exists>rg'. vtkReebGraphDeleteNode rg N = Some rg' \<and>
           MainLabelTable rg' = MainLabelTable rg \<and> MainArcTable rg' = MainArcTable rg \<and>
           Number (MainNodeTable rg') = Number (MainNodeTable rg) - 1 \<and>
           FreeZone (MainNodeTable rg') = N \<and>
           (\<forall>M. vtkReebGraphGetNode rg' M =
                  (if M = N then Some (n\<lparr>ArcUpId := - 2, ArcDownId := FreeZone (MainNodeTable rg)\<rparr>)
                   else vtkReebGraphGetNode rg M))"
proof -
  let ?rg1 = "putNode rg N (n\<lparr>ArcUpId := - 2\<rparr>)"
  have g1: "vtkReebGraphGetNode ?rg1 N = Some (n\<lparr>ArcUpId := - 2\<rparr>)"
    using assms by (simp add: GetNode_putNode)
  show ?thesis
    using assms g1
    by (simp add: vtkReebGraphDeleteNode_def vtkReebGraphClearNode_def modNode_def Let_def
        GetNode_putNode)
       (auto simp: vtkReebGraphGetNode_def putNode_def deref_update
          dest: deref_Some_inBuffer split: if_splits)
qed

subsection \<open>A guarded write through a link\<close>

lemma vlink_write:
  assumes "labelLinkOk rg v"
  shows "\<exists>rg'. (if v \<noteq> 0 then modLabel rg v f else Some rg) = Some rg' \<and>
           MainArcTable rg' = MainArcTable rg \<and> MainNodeTable rg' = MainNodeTable rg \<and>
           Number (MainLabelTable rg') = Number (MainLabelTable rg) \<and>
           FreeZone (MainLabelTable rg') = FreeZone (MainLabelTable rg) \<and>
           (\<forall>M. vtkReebGraphGetLabel rg' M =
                  (if v \<noteq> 0 \<and> M = v then map_option f (vtkReebGraphGetLabel rg M)
                   else vtkReebGraphGetLabel rg M))"
proof (cases "v = 0")
  case True
  then show ?thesis by simp
next
  case False
  with assms obtain lv where "vtkReebGraphGetLabel rg v = Some lv"
    by (auto simp: labelLinkOk_def)
  with False show ?thesis
    by (simp add: modLabel_def GetLabel_putLabel)
qed

lemma arc_write:
  assumes "arcLinkOk rg v"
  shows "\<exists>rg'. (if v \<noteq> 0 then modArc rg v f else Some rg) = Some rg' \<and>
           MainLabelTable rg' = MainLabelTable rg \<and> MainNodeTable rg' = MainNodeTable rg \<and>
           Number (MainArcTable rg') = Number (MainArcTable rg) \<and>
           FreeZone (MainArcTable rg') = FreeZone (MainArcTable rg) \<and>
           (\<forall>B. vtkReebGraphGetArc rg' B =
                  (if v \<noteq> 0 \<and> B = v then map_option f (vtkReebGraphGetArc rg B)
                   else vtkReebGraphGetArc rg B))"
proof (cases "v = 0")
  case True
  then show ?thesis by simp
next
  case False
  with assms obtain av where "vtkReebGraphGetArc rg v = Some av"
    by (auto simp: arcLinkOk_def)
  with False show ?thesis
    by (simp add: modArc_def GetArc_putArc)
qed

subsection \<open>One turn of the loop over the labels\<close>

lemma collapseLabelStep_effect:
  assumes lb: "vtkReebGraphGetLabel rg Lb = Some lb"
    and p: "labelLinkOk rg (VPrev lb)" and q: "labelLinkOk rg (VNext lb)"
  shows "\<exists>rg'. collapseLabelStep rg Lb = Some rg' \<and>
           MainArcTable rg' = MainArcTable rg \<and> MainNodeTable rg' = MainNodeTable rg \<and>
           Number (MainLabelTable rg') = Number (MainLabelTable rg) - 1 \<and>
           FreeZone (MainLabelTable rg') = Lb \<and>
           (\<forall>M. (vtkReebGraphGetLabel rg' M = None) = (vtkReebGraphGetLabel rg M = None)) \<and>
           (\<forall>M. map_option HNext (vtkReebGraphGetLabel rg' M) =
                  (if M = Lb then Some (- 2) else map_option HNext (vtkReebGraphGetLabel rg M))) \<and>
           (\<forall>M. vnextOf rg' M =
                  (if VPrev lb \<noteq> 0 \<and> M = VPrev lb then VNext lb else vnextOf rg M)) \<and>
           (\<forall>M. vprevOf rg' M =
                  (if VNext lb \<noteq> 0 \<and> M = VNext lb then VPrev lb else vprevOf rg M))"
proof -
  from vlink_write [OF p, of "\<lambda>l. l\<lparr>VNext := VNext lb\<rparr>"]
  obtain rg1 where s1: "(if VPrev lb \<noteq> 0
                          then modLabel rg (VPrev lb) (\<lambda>l. l\<lparr>VNext := VNext lb\<rparr>)
                          else Some rg) = Some rg1"
    and t1: "MainArcTable rg1 = MainArcTable rg" "MainNodeTable rg1 = MainNodeTable rg"
      "Number (MainLabelTable rg1) = Number (MainLabelTable rg)"
      "FreeZone (MainLabelTable rg1) = FreeZone (MainLabelTable rg)"
    and g1: "\<And>M. vtkReebGraphGetLabel rg1 M =
                  (if VPrev lb \<noteq> 0 \<and> M = VPrev lb
                   then map_option (\<lambda>l. l\<lparr>VNext := VNext lb\<rparr>) (vtkReebGraphGetLabel rg M)
                   else vtkReebGraphGetLabel rg M)"
    by auto
  have lb1: "vtkReebGraphGetLabel rg1 Lb = Some lb"
  proof (cases "VPrev lb \<noteq> 0 \<and> Lb = VPrev lb")
    case True
    then have "vtkReebGraphGetLabel rg (VPrev lb) = Some lb" using lb by simp
    with True show ?thesis by (simp add: g1)
  next
    case False
    with lb show ?thesis by (auto simp: g1)
  qed
  have q1: "labelLinkOk rg1 (VNext lb)"
    using q by (auto simp: labelLinkOk_def g1)
  from vlink_write [OF q1, of "\<lambda>l. l\<lparr>VPrev := VPrev lb\<rparr>"]
  obtain rg2 where s2: "(if VNext lb \<noteq> 0
                          then modLabel rg1 (VNext lb) (\<lambda>l. l\<lparr>VPrev := VPrev lb\<rparr>)
                          else Some rg1) = Some rg2"
    and t2: "MainArcTable rg2 = MainArcTable rg1" "MainNodeTable rg2 = MainNodeTable rg1"
      "Number (MainLabelTable rg2) = Number (MainLabelTable rg1)"
      "FreeZone (MainLabelTable rg2) = FreeZone (MainLabelTable rg1)"
    and g2: "\<And>M. vtkReebGraphGetLabel rg2 M =
                  (if VNext lb \<noteq> 0 \<and> M = VNext lb
                   then map_option (\<lambda>l. l\<lparr>VPrev := VPrev lb\<rparr>) (vtkReebGraphGetLabel rg1 M)
                   else vtkReebGraphGetLabel rg1 M)"
    by auto
  obtain lb2 where lb2: "vtkReebGraphGetLabel rg2 Lb = Some lb2"
    using lb1 by (cases "VNext lb \<noteq> 0 \<and> Lb = VNext lb") (simp_all add: g2)
  from DeleteLabel_effect [OF lb2]
  obtain rg3 where s3: "vtkReebGraphDeleteLabel rg2 Lb = Some rg3"
    and t3: "MainArcTable rg3 = MainArcTable rg2" "MainNodeTable rg3 = MainNodeTable rg2"
      "Number (MainLabelTable rg3) = Number (MainLabelTable rg2) - 1"
      "FreeZone (MainLabelTable rg3) = Lb"
    and g3: "\<And>M. vtkReebGraphGetLabel rg3 M =
                  (if M = Lb
                   then Some (lb2\<lparr>HNext := - 2, ArcId := FreeZone (MainLabelTable rg2)\<rparr>)
                   else vtkReebGraphGetLabel rg2 M)"
    by auto
  have run: "collapseLabelStep rg Lb = Some rg3"
    by (simp add: collapseLabelStep_def lb s1 lb1 s2 s3)
  have valid: "\<And>M. (vtkReebGraphGetLabel rg3 M = None) = (vtkReebGraphGetLabel rg M = None)"
    using lb by (auto simp: g3 g2 g1)
  have hn: "\<And>M. map_option HNext (vtkReebGraphGetLabel rg3 M) =
                  (if M = Lb then Some (- 2) else map_option HNext (vtkReebGraphGetLabel rg M))"
    by (auto simp: g3 g2 g1 option.map_comp comp_def)
  have pv: "VPrev lb \<noteq> 0 \<Longrightarrow> vtkReebGraphGetLabel rg (VPrev lb) \<noteq> None"
    using p by (simp add: labelLinkOk_def)
  have qv: "VNext lb \<noteq> 0 \<Longrightarrow> vtkReebGraphGetLabel rg (VNext lb) \<noteq> None"
    using q by (simp add: labelLinkOk_def)
  have n3: "\<And>M. vnextOf rg3 M = vnextOf rg2 M" and p3: "\<And>M. vprevOf rg3 M = vprevOf rg2 M"
    using lb2 by (auto simp: vnextOf_def vprevOf_def g3)
  have n2: "\<And>M. vnextOf rg2 M = vnextOf rg1 M"
    by (auto simp: vnextOf_def g2 split: option.splits)
  have p2: "\<And>M. vprevOf rg2 M =
                 (if VNext lb \<noteq> 0 \<and> M = VNext lb then VPrev lb else vprevOf rg1 M)"
    using qv q1 by (auto simp: vprevOf_def g2 labelLinkOk_def split: option.splits)
  have n1: "\<And>M. vnextOf rg1 M =
                 (if VPrev lb \<noteq> 0 \<and> M = VPrev lb then VNext lb else vnextOf rg M)"
    using pv by (auto simp: vnextOf_def g1 split: option.splits)
  have p1: "\<And>M. vprevOf rg1 M = vprevOf rg M"
    by (auto simp: vprevOf_def g1 split: option.splits)
  have vn: "\<And>M. vnextOf rg3 M =
                 (if VPrev lb \<noteq> 0 \<and> M = VPrev lb then VNext lb else vnextOf rg M)"
    by (simp add: n3 n2 n1)
  have vp: "\<And>M. vprevOf rg3 M =
                 (if VNext lb \<noteq> 0 \<and> M = VNext lb then VPrev lb else vprevOf rg M)"
    by (simp add: p3 p2 p1)
  show ?thesis
    using run t1 t2 t3 valid hn vn vp by auto
qed

subsection \<open>The loop over the labels of the upper arc\<close>

lemma collapseLabels_null: "collapseLabels rg 0 = Some rg"
  by (subst collapseLabels.simps) simp

lemma collapseLabels_step:
  "Lb \<noteq> 0 \<Longrightarrow> collapseLabels rg Lb =
     (case vtkReebGraphGetLabel rg Lb of
        None \<Rightarrow> None
      | Some lb \<Rightarrow>
          (case collapseLabelStep rg Lb of
             None \<Rightarrow> None
           | Some rg' \<Rightarrow> collapseLabels rg' (HNext lb)))"
  by (subst collapseLabels.simps) simp

lemma hchain_cong:
  "(\<And>y. y \<in> set xs \<Longrightarrow>
      map_option HNext (vtkReebGraphGetLabel rg' y) = map_option HNext (vtkReebGraphGetLabel rg y))
   \<Longrightarrow> hchain rg' L xs = hchain rg L xs"
proof (induction xs arbitrary: L)
  case Nil
  show ?case by simp
next
  case (Cons x xs)
  have hx: "map_option HNext (vtkReebGraphGetLabel rg' x) =
            map_option HNext (vtkReebGraphGetLabel rg x)"
    by (rule Cons.prems) simp
  have tl: "\<And>L. hchain rg' L xs = hchain rg L xs"
    by (rule Cons.IH) (simp add: Cons.prems)
  show ?case
  proof (cases "vtkReebGraphGetLabel rg x")
    case None
    with hx show ?thesis by simp
  next
    case (Some l)
    with hx obtain l' where "vtkReebGraphGetLabel rg' x = Some l'" and "HNext l' = HNext l"
      by auto
    with Some tl show ?thesis by simp
  qed
qed

text \<open>
  The first turn of the loop on a chain \<open>x # xs\<close>: it runs, and the rest of the chain
  is a chain of the graph it leaves, with vertical links that are still null or
  addressable.
\<close>

lemma collapseLabels_unfold:
  assumes "hchain rg L (x # xs)" and "distinct (x # xs)" and "vlinksOk rg (x # xs)"
  shows "\<exists>lb rg1. vtkReebGraphGetLabel rg x = Some lb \<and>
           collapseLabels rg L = collapseLabels rg1 (HNext lb) \<and>
           hchain rg1 (HNext lb) xs \<and> vlinksOk rg1 xs \<and>
           MainArcTable rg1 = MainArcTable rg \<and> MainNodeTable rg1 = MainNodeTable rg \<and>
           Number (MainLabelTable rg1) = Number (MainLabelTable rg) - 1 \<and>
           (\<forall>M. (vtkReebGraphGetLabel rg1 M = None) = (vtkReebGraphGetLabel rg M = None)) \<and>
           (\<forall>M. map_option HNext (vtkReebGraphGetLabel rg1 M) =
                  (if M = x then Some (- 2) else map_option HNext (vtkReebGraphGetLabel rg M))) \<and>
           (\<forall>M. vnextOf rg1 M =
                  (if VPrev lb \<noteq> 0 \<and> M = VPrev lb then VNext lb else vnextOf rg M)) \<and>
           (\<forall>M. vprevOf rg1 M =
                  (if VNext lb \<noteq> 0 \<and> M = VNext lb then VPrev lb else vprevOf rg M))"
proof -
  from assms(1) obtain lb where L: "L = x" and lb: "vtkReebGraphGetLabel rg x = Some lb"
    and ch: "hchain rg (HNext lb) xs"
    by (auto split: option.splits)
  have x0: "x \<noteq> 0" using lb by (auto simp: vtkReebGraphGetLabel_def split: if_splits)
  from assms(3) lb have p: "labelLinkOk rg (VPrev lb)" and q: "labelLinkOk rg (VNext lb)"
    and vl: "vlinksOk rg xs"
    by (simp_all add: vlinksOk_def)
  from collapseLabelStep_effect [OF lb p q]
  obtain rg1 where st: "collapseLabelStep rg x = Some rg1"
    and t1: "MainArcTable rg1 = MainArcTable rg" "MainNodeTable rg1 = MainNodeTable rg"
      "Number (MainLabelTable rg1) = Number (MainLabelTable rg) - 1"
    and v1: "\<And>M. (vtkReebGraphGetLabel rg1 M = None) = (vtkReebGraphGetLabel rg M = None)"
    and h1: "\<And>M. map_option HNext (vtkReebGraphGetLabel rg1 M) =
                  (if M = x then Some (- 2) else map_option HNext (vtkReebGraphGetLabel rg M))"
    and vn: "\<And>M. vnextOf rg1 M =
                  (if VPrev lb \<noteq> 0 \<and> M = VPrev lb then VNext lb else vnextOf rg M)"
    and vp: "\<And>M. vprevOf rg1 M =
                  (if VNext lb \<noteq> 0 \<and> M = VNext lb then VPrev lb else vprevOf rg M)"
    by blast
  from assms(2) have nx: "x \<notin> set xs" by simp
  have ch1: "hchain rg1 (HNext lb) xs"
  proof -
    have "hchain rg1 (HNext lb) xs = hchain rg (HNext lb) xs"
      by (rule hchain_cong) (use nx in \<open>auto simp: h1\<close>)
    with ch show ?thesis by simp
  qed
  have ok1: "\<And>v. labelLinkOk rg v \<Longrightarrow> labelLinkOk rg1 v"
    by (simp add: labelLinkOk_def v1)
  have vl1: "vlinksOk rg1 xs"
    unfolding vlinksOk_def list_all_iff
  proof
    fix y assume y: "y \<in> set xs"
    with vl obtain l where l: "vtkReebGraphGetLabel rg y = Some l"
      and lo: "labelLinkOk rg (VPrev l)" "labelLinkOk rg (VNext l)"
      by (auto simp: vlinksOk_def list_all_iff split: option.splits)
    from l v1 [of y] obtain l' where l': "vtkReebGraphGetLabel rg1 y = Some l'"
      by (cases "vtkReebGraphGetLabel rg1 y") auto
    have "VPrev l' = vprevOf rg1 y" "VNext l' = vnextOf rg1 y"
      using l' by (simp_all add: vprevOf_def vnextOf_def)
    moreover have "VPrev l = vprevOf rg y" "VNext l = vnextOf rg y"
      using l by (simp_all add: vprevOf_def vnextOf_def)
    ultimately have "VPrev l' = VPrev l \<or> VPrev l' = VPrev lb"
      and "VNext l' = VNext l \<or> VNext l' = VNext lb"
      by (simp_all add: vn vp split: if_splits)
    with lo p q have "labelLinkOk rg (VPrev l')" "labelLinkOk rg (VNext l')"
      by auto
    then show "case vtkReebGraphGetLabel rg1 y of None \<Rightarrow> False
               | Some l \<Rightarrow> labelLinkOk rg1 (VPrev l) \<and> labelLinkOk rg1 (VNext l)"
      using l' ok1 by simp
  qed
  have "collapseLabels rg L = collapseLabels rg1 (HNext lb)"
    using x0 by (simp add: L collapseLabels_step lb st)
  with lb ch1 vl1 t1 v1 h1 vn vp show ?thesis by blast
qed

text \<open>
  On a chain of distinct labels with sound vertical links the loop ends: it only writes
  labels, it clears exactly the labels of the chain and counts them off.
\<close>

lemma collapseLabels_chain:
  assumes "hchain rg L xs" and "distinct xs" and "vlinksOk rg xs"
  shows "\<exists>rg'. collapseLabels rg L = Some rg' \<and>
           MainArcTable rg' = MainArcTable rg \<and> MainNodeTable rg' = MainNodeTable rg \<and>
           Number (MainLabelTable rg') = Number (MainLabelTable rg) - int (length xs) \<and>
           (\<forall>M. (vtkReebGraphGetLabel rg' M = None) = (vtkReebGraphGetLabel rg M = None)) \<and>
           (\<forall>M. map_option HNext (vtkReebGraphGetLabel rg' M) =
                  (if M \<in> set xs then Some (- 2)
                   else map_option HNext (vtkReebGraphGetLabel rg M)))"
  using assms
proof (induction xs arbitrary: rg L)
  case Nil
  then show ?case by (simp add: collapseLabels_null)
next
  case (Cons x xs)
  from collapseLabels_unfold [OF Cons.prems]
  obtain lb :: vtkReebLabel and rg1
    where un: "collapseLabels rg L = collapseLabels rg1 (HNext lb)"
    and ch1: "hchain rg1 (HNext lb) xs" and vl1: "vlinksOk rg1 xs"
    and t1: "MainArcTable rg1 = MainArcTable rg" "MainNodeTable rg1 = MainNodeTable rg"
      "Number (MainLabelTable rg1) = Number (MainLabelTable rg) - 1"
    and v1: "\<And>M. (vtkReebGraphGetLabel rg1 M = None) = (vtkReebGraphGetLabel rg M = None)"
    and h1: "\<And>M. map_option HNext (vtkReebGraphGetLabel rg1 M) =
                  (if M = x then Some (- 2) else map_option HNext (vtkReebGraphGetLabel rg M))"
    by blast
  from Cons.prems(2) have dx: "distinct xs" by simp
  from Cons.IH [OF ch1 dx vl1]
  obtain rg' where r: "collapseLabels rg1 (HNext lb) = Some rg'"
    and t: "MainArcTable rg' = MainArcTable rg1" "MainNodeTable rg' = MainNodeTable rg1"
      "Number (MainLabelTable rg') = Number (MainLabelTable rg1) - int (length xs)"
    and v: "\<And>M. (vtkReebGraphGetLabel rg' M = None) = (vtkReebGraphGetLabel rg1 M = None)"
    and h: "\<And>M. map_option HNext (vtkReebGraphGetLabel rg' M) =
                  (if M \<in> set xs then Some (- 2)
                   else map_option HNext (vtkReebGraphGetLabel rg1 M))"
    by blast
  have hn: "\<And>M. map_option HNext (vtkReebGraphGetLabel rg' M) =
                  (if M \<in> set (x # xs) then Some (- 2)
                   else map_option HNext (vtkReebGraphGetLabel rg M))"
    by (simp add: h h1)
  show ?case
    using un r t t1 v v1 hn by auto
qed

text \<open>
  When, moreover, the vertical neighbours of the chain lie outside it and are not
  shared, the loop closes every vertical chain over the label it removes.
\<close>

lemma collapseLabels_rethread:
  assumes "hchain rg L xs" and "distinct xs" and "vlinksOk rg xs"
    and "vneighboursOutside rg xs" and "vneighboursDistinct rg xs"
    and "collapseLabels rg L = Some rg'"
  shows "(\<forall>M. M \<notin> set (filter (\<lambda>v. v \<noteq> 0) (map (vprevOf rg) xs)) \<longrightarrow>
              vnextOf rg' M = vnextOf rg M) \<and>
         (\<forall>M. M \<notin> set (filter (\<lambda>v. v \<noteq> 0) (map (vnextOf rg) xs)) \<longrightarrow>
              vprevOf rg' M = vprevOf rg M) \<and>
         rethreaded rg rg' xs"
  using assms
proof (induction xs arbitrary: rg L)
  case Nil
  then show ?case by (simp add: collapseLabels_null rethreaded_def)
next
  case (Cons x xs)
  from collapseLabels_unfold [OF Cons.prems(1,2,3)]
  obtain lb rg1 where lb: "vtkReebGraphGetLabel rg x = Some lb"
    and un: "collapseLabels rg L = collapseLabels rg1 (HNext lb)"
    and ch1: "hchain rg1 (HNext lb) xs" and vl1: "vlinksOk rg1 xs"
    and vn1: "\<And>M. vnextOf rg1 M =
                  (if VPrev lb \<noteq> 0 \<and> M = VPrev lb then VNext lb else vnextOf rg M)"
    and vp1: "\<And>M. vprevOf rg1 M =
                  (if VNext lb \<noteq> 0 \<and> M = VNext lb then VPrev lb else vprevOf rg M)"
    by blast
  have px: "vprevOf rg x = VPrev lb" and qx: "vnextOf rg x = VNext lb"
    using lb by (simp_all add: vprevOf_def vnextOf_def)
  from Cons.prems(4) have out: "VPrev lb \<notin> set (x # xs)" "VNext lb \<notin> set (x # xs)"
    and outs: "\<And>y. y \<in> set xs \<Longrightarrow> vprevOf rg y \<notin> set xs \<and> vnextOf rg y \<notin> set xs"
    by (auto simp: vneighboursOutside_def list_all_iff px qx)
  have same: "\<And>y. y \<in> set xs \<Longrightarrow> vprevOf rg1 y = vprevOf rg y \<and> vnextOf rg1 y = vnextOf rg y"
    using out by (auto simp: vn1 vp1)
  then have mp: "map (vprevOf rg1) xs = map (vprevOf rg) xs"
    and mn: "map (vnextOf rg1) xs = map (vnextOf rg) xs"
    by simp_all
  have o1: "vneighboursOutside rg1 xs"
    using outs same by (simp add: vneighboursOutside_def list_all_iff)
  from Cons.prems(5) have d1: "vneighboursDistinct rg1 xs"
    and fresh: "VPrev lb \<noteq> 0 \<Longrightarrow> VPrev lb \<notin> set (filter (\<lambda>v. v \<noteq> 0) (map (vprevOf rg) xs))"
      "VNext lb \<noteq> 0 \<Longrightarrow> VNext lb \<notin> set (filter (\<lambda>v. v \<noteq> 0) (map (vnextOf rg) xs))"
    by (auto simp: vneighboursDistinct_def mp mn px qx split: if_splits)
  from Cons.prems(6) un have run1: "collapseLabels rg1 (HNext lb) = Some rg'" by simp
  from Cons.IH [OF ch1 _ vl1 o1 d1 run1] Cons.prems(2)
  have F1: "\<And>M. M \<notin> set (filter (\<lambda>v. v \<noteq> 0) (map (vprevOf rg) xs)) \<Longrightarrow>
              vnextOf rg' M = vnextOf rg1 M"
    and F2: "\<And>M. M \<notin> set (filter (\<lambda>v. v \<noteq> 0) (map (vnextOf rg) xs)) \<Longrightarrow>
              vprevOf rg' M = vprevOf rg1 M"
    and R: "rethreaded rg1 rg' xs"
    by (simp_all add: mp mn)
  have G1: "\<forall>M. M \<notin> set (filter (\<lambda>v. v \<noteq> 0) (map (vprevOf rg) (x # xs))) \<longrightarrow>
              vnextOf rg' M = vnextOf rg M"
    by (auto simp: px F1 vn1 split: if_splits)
  have G2: "\<forall>M. M \<notin> set (filter (\<lambda>v. v \<noteq> 0) (map (vnextOf rg) (x # xs))) \<longrightarrow>
              vprevOf rg' M = vprevOf rg M"
    by (auto simp: qx F2 vp1 split: if_splits)
  have Rx: "(vprevOf rg x = 0 \<or> vnextOf rg' (vprevOf rg x) = vnextOf rg x) \<and>
            (vnextOf rg x = 0 \<or> vprevOf rg' (vnextOf rg x) = vprevOf rg x)"
  proof -
    have "vnextOf rg' (VPrev lb) = VNext lb" if "VPrev lb \<noteq> 0"
      using F1 [OF fresh(1) [OF that]] that by (simp add: vn1)
    moreover have "vprevOf rg' (VNext lb) = VPrev lb" if "VNext lb \<noteq> 0"
      using F2 [OF fresh(2) [OF that]] that by (simp add: vp1)
    ultimately show ?thesis by (auto simp: px qx)
  qed
  have Rxs: "rethreaded rg rg' xs"
    using R same by (simp add: rethreaded_def list_all_iff)
  from G1 G2 Rx Rxs show ?case
    by (simp add: rethreaded_def)
qed

subsection \<open>The arc part\<close>

lemma collapseStage_links:
  assumes "collapseStage rg0 A0 A1 k0 k1 rg"
  shows "arcLinkOk rg v = arcLinkOk rg0 v"
  using assms by (simp add: collapseStage_def arcLinkOk_def)

lemma collapseStage_upper:
  assumes "collapseStage rg0 A0 A1 k0 k1 rg"
  obtains b where "vtkReebGraphGetArc rg A1 = Some b" and "arcCore b = k1"
    and "arcLinkOk rg0 (ArcUpId1 b)" and "arcLinkOk rg0 (ArcDwId1 b)"
  using assms by (auto simp: collapseStage_def split: option.splits)

text \<open>
  A guarded write of \<open>f\<close> to the arc \<open>v\<close> keeps the stage, when \<open>f\<close> stores
  addressable links only and leaves the core of every arc but \<open>A0\<close> alone.
\<close>

lemma stage_write:
  assumes inv: "collapseStage rg0 A0 A1 k0 k1 rg"
    and v: "arcLinkOk rg0 v"
    and f0: "\<And>a. arcCore a = k0 \<Longrightarrow> arcCore (f a) = (if v = A0 then k0' else arcCore a)"
    and f1: "\<And>a. v \<noteq> A0 \<Longrightarrow> arcCore (f a) = arcCore a"
    and k: "v \<noteq> A0 \<or> v = 0 \<Longrightarrow> k0' = k0"
    and fl: "\<And>a. arcLinkOk rg0 (ArcUpId1 a) \<Longrightarrow> arcLinkOk rg0 (ArcUpId1 (f a))"
      "\<And>a. arcLinkOk rg0 (ArcDwId1 a) \<Longrightarrow> arcLinkOk rg0 (ArcDwId1 (f a))"
    and ne: "A0 \<noteq> A1"
  shows "\<exists>rg'. (if v \<noteq> 0 then modArc rg v f else Some rg) = Some rg' \<and>
           collapseStage rg0 A0 A1 k0' k1 rg'"
proof -
  have "arcLinkOk rg v" using v inv by (simp add: collapseStage_links)
  from arc_write [OF this, of f]
  obtain rg' where w: "(if v \<noteq> 0 then modArc rg v f else Some rg) = Some rg'"
    and t: "MainLabelTable rg' = MainLabelTable rg" "MainNodeTable rg' = MainNodeTable rg"
      "Number (MainArcTable rg') = Number (MainArcTable rg)"
      "FreeZone (MainArcTable rg') = FreeZone (MainArcTable rg)"
    and g: "\<And>B. vtkReebGraphGetArc rg' B =
                  (if v \<noteq> 0 \<and> B = v then map_option f (vtkReebGraphGetArc rg B)
                   else vtkReebGraphGetArc rg B)"
    by blast
  from inv obtain c where c: "vtkReebGraphGetArc rg A0 = Some c" "arcCore c = k0"
    by (auto simp: collapseStage_def split: option.splits)
  from inv obtain b where b: "vtkReebGraphGetArc rg A1 = Some b" "arcCore b = k1"
    "arcLinkOk rg0 (ArcUpId1 b)" "arcLinkOk rg0 (ArcDwId1 b)"
    by (rule collapseStage_upper)
  have A0: "case vtkReebGraphGetArc rg' A0 of None \<Rightarrow> False | Some c \<Rightarrow> arcCore c = k0'"
  proof (cases "v \<noteq> 0 \<and> A0 = v")
    case True
    with c f0 [of c] show ?thesis by (simp add: g)
  next
    case False
    with k have "k0' = k0" by auto
    with False c show ?thesis by (auto simp: g)
  qed
  have A1: "case vtkReebGraphGetArc rg' A1 of
              None \<Rightarrow> False
            | Some b \<Rightarrow> arcCore b = k1 \<and> arcLinkOk rg0 (ArcUpId1 b) \<and> arcLinkOk rg0 (ArcDwId1 b)"
  proof (cases "v \<noteq> 0 \<and> A1 = v")
    case True
    with ne have "v \<noteq> A0" by auto
    with True b f1 [of b] fl [of b] show ?thesis by (simp add: g)
  next
    case False
    with b show ?thesis by (auto simp: g)
  qed
  have V: "\<And>B. (vtkReebGraphGetArc rg' B = None) = (vtkReebGraphGetArc rg0 B = None)"
    using inv by (auto simp: g collapseStage_def)
  from inv t A0 A1 V have "collapseStage rg0 A0 A1 k0' k1 rg'"
    by (simp add: collapseStage_def)
  with w show ?thesis by blast
qed

lemma stage_link_write:
  assumes inv: "collapseStage rg0 A0 A1 k0 k1 rg"
    and v: "arcLinkOk rg0 v"
    and core: "\<And>a. arcCore (f a) = arcCore a"
    and fl: "\<And>a. arcLinkOk rg0 (ArcUpId1 a) \<Longrightarrow> arcLinkOk rg0 (ArcUpId1 (f a))"
      "\<And>a. arcLinkOk rg0 (ArcDwId1 a) \<Longrightarrow> arcLinkOk rg0 (ArcDwId1 (f a))"
    and ne: "A0 \<noteq> A1"
  shows "\<exists>rg'. (if v \<noteq> 0 then modArc rg v f else Some rg) = Some rg' \<and>
           collapseStage rg0 A0 A1 k0 k1 rg'"
proof (rule stage_write [OF inv v _ _ _ fl ne])
  show "\<And>a. arcCore a = k0 \<Longrightarrow> arcCore (f a) = (if v = A0 then k0 else arcCore a)"
    by (simp add: core)
  show "\<And>a. v \<noteq> A0 \<Longrightarrow> arcCore (f a) = arcCore a"
    by (simp add: core)
  show "v \<noteq> A0 \<or> v = 0 \<Longrightarrow> k0 = k0" by simp
qed

lemma stage_first_write:
  assumes inv: "collapseStage rg0 A0 A1 (arcCore a0) k1 rg"
    and v: "vtkReebGraphGetArc rg0 A0 = Some a0"
    and ne: "A0 \<noteq> A1"
  shows "\<exists>rg'. modArc rg A0 (\<lambda>a. a\<lparr>NodeId1 := c\<rparr>) = Some rg' \<and>
           collapseStage rg0 A0 A1 (NodeId0 a0, c, LabelId0 a0, LabelId1 a0) k1 rg'"
proof -
  have nz: "A0 \<noteq> 0" using v by (auto simp: vtkReebGraphGetArc_def split: if_splits)
  have ok: "arcLinkOk rg0 A0" using v by (simp add: arcLinkOk_def)
  have "\<exists>rg'. (if A0 \<noteq> 0 then modArc rg A0 (\<lambda>a. a\<lparr>NodeId1 := c\<rparr>) else Some rg) = Some rg' \<and>
           collapseStage rg0 A0 A1 (NodeId0 a0, c, LabelId0 a0, LabelId1 a0) k1 rg'"
  proof (rule stage_write [OF inv ok _ _ _ _ _ ne])
    show "\<And>a. arcCore a = arcCore a0 \<Longrightarrow>
            arcCore (a\<lparr>NodeId1 := c\<rparr>) =
            (if A0 = A0 then (NodeId0 a0, c, LabelId0 a0, LabelId1 a0) else arcCore a)"
      by (simp add: arcCore_def)
    show "\<And>a. A0 \<noteq> A0 \<Longrightarrow> arcCore (a\<lparr>NodeId1 := c\<rparr>) = arcCore a" by simp
    show "A0 \<noteq> A0 \<or> A0 = 0 \<Longrightarrow> (NodeId0 a0, c, LabelId0 a0, LabelId1 a0) = arcCore a0"
      using nz by simp
  qed simp_all
  with nz show ?thesis by simp
qed

lemma collapseArcs_effect:
  assumes a0: "vtkReebGraphGetArc rg A0 = Some a0"
    and a1: "vtkReebGraphGetArc rg A1 = Some a1"
    and ne: "A0 \<noteq> A1"
    and up: "arcLinkOk rg (ArcUpId1 a1)" and dw: "arcLinkOk rg (ArcDwId1 a1)"
    and nu: "vtkReebGraphGetNode rg (NodeId1 a1) = Some nu"
  shows "\<exists>rg6. collapseArcs rg A0 A1 = Some rg6 \<and>
           MainLabelTable rg6 = MainLabelTable rg \<and>
           Number (MainArcTable rg6) = Number (MainArcTable rg) \<and>
           FreeZone (MainArcTable rg6) = FreeZone (MainArcTable rg) \<and>
           Number (MainNodeTable rg6) = Number (MainNodeTable rg) \<and>
           FreeZone (MainNodeTable rg6) = FreeZone (MainNodeTable rg) \<and>
           (\<forall>M. (vtkReebGraphGetNode rg6 M = None) = (vtkReebGraphGetNode rg M = None)) \<and>
           (\<exists>b. vtkReebGraphGetArc rg6 A1 = Some b \<and> arcCore b = arcCore a1) \<and>
           (\<exists>c. vtkReebGraphGetArc rg6 A0 = Some c \<and>
                arcCore c = (NodeId0 a0, NodeId1 a1, LabelId0 a0, LabelId1 a0))"
proof -
  let ?K = "(NodeId0 a0, NodeId1 a1, LabelId0 a0, LabelId1 a0)"
  have okA0: "arcLinkOk rg A0" using a0 by (simp add: arcLinkOk_def)
  have A0nz: "A0 \<noteq> 0" using a0 by (auto simp: vtkReebGraphGetArc_def split: if_splits)
  have s0: "collapseStage rg A0 A1 (arcCore a0) (arcCore a1) rg"
    using a0 a1 up dw by (simp add: collapseStage_def)
  \<comment> \<open>\<^verbatim>\<open>a0->NodeId1 = a1->NodeId1\<close>\<close>
  from stage_first_write [OF s0 a0 ne, of "NodeId1 a1"]
  obtain rg1 where w1: "modArc rg A0 (\<lambda>a. a\<lparr>NodeId1 := NodeId1 a1\<rparr>) = Some rg1"
    and s1: "collapseStage rg A0 A1 ?K (arcCore a1) rg1"
    by blast
  from s1 obtain b1 where b1: "vtkReebGraphGetArc rg1 A1 = Some b1"
    and l1: "arcLinkOk rg (ArcUpId1 b1)"
    by (rule collapseStage_upper)
  \<comment> \<open>\<^verbatim>\<open>a0->ArcUpId1 = a1->ArcUpId1\<close>\<close>
  have "\<exists>rg'. (if A0 \<noteq> 0 then modArc rg1 A0 (\<lambda>a. a\<lparr>ArcUpId1 := ArcUpId1 b1\<rparr>) else Some rg1)
               = Some rg' \<and> collapseStage rg A0 A1 ?K (arcCore a1) rg'"
    by (rule stage_link_write [OF s1 okA0 _ _ _ ne]) (simp_all add: arcCore_def l1)
  then obtain rg2 where w2: "modArc rg1 A0 (\<lambda>a. a\<lparr>ArcUpId1 := ArcUpId1 b1\<rparr>) = Some rg2"
    and s2: "collapseStage rg A0 A1 ?K (arcCore a1) rg2"
    using A0nz by auto
  from s2 obtain b2 where b2: "vtkReebGraphGetArc rg2 A1 = Some b2"
    and l2: "arcLinkOk rg (ArcUpId1 b2)"
    by (rule collapseStage_upper)
  \<comment> \<open>\<^verbatim>\<open>if (a1->ArcUpId1) GetArc(a1->ArcUpId1)->ArcDwId1 = A0\<close>\<close>
  have "\<exists>rg'. (if ArcUpId1 b2 \<noteq> 0
                then modArc rg2 (ArcUpId1 b2) (\<lambda>a. a\<lparr>ArcDwId1 := A0\<rparr>) else Some rg2)
               = Some rg' \<and> collapseStage rg A0 A1 ?K (arcCore a1) rg'"
    by (rule stage_link_write [OF s2 l2 _ _ _ ne]) (simp_all add: arcCore_def okA0)
  then obtain rg3 where w3: "(if ArcUpId1 b2 \<noteq> 0
                          then modArc rg2 (ArcUpId1 b2) (\<lambda>a. a\<lparr>ArcDwId1 := A0\<rparr>)
                          else Some rg2) = Some rg3"
    and s3: "collapseStage rg A0 A1 ?K (arcCore a1) rg3"
    by blast
  from s3 obtain b3 where b3: "vtkReebGraphGetArc rg3 A1 = Some b3"
    and l3: "arcLinkOk rg (ArcDwId1 b3)"
    by (rule collapseStage_upper)
  \<comment> \<open>\<^verbatim>\<open>a0->ArcDwId1 = a1->ArcDwId1\<close>\<close>
  have "\<exists>rg'. (if A0 \<noteq> 0 then modArc rg3 A0 (\<lambda>a. a\<lparr>ArcDwId1 := ArcDwId1 b3\<rparr>) else Some rg3)
               = Some rg' \<and> collapseStage rg A0 A1 ?K (arcCore a1) rg'"
    by (rule stage_link_write [OF s3 okA0 _ _ _ ne]) (simp_all add: arcCore_def l3)
  then obtain rg4 where w4: "modArc rg3 A0 (\<lambda>a. a\<lparr>ArcDwId1 := ArcDwId1 b3\<rparr>) = Some rg4"
    and s4: "collapseStage rg A0 A1 ?K (arcCore a1) rg4"
    using A0nz by auto
  from s4 obtain b4 where b4: "vtkReebGraphGetArc rg4 A1 = Some b4"
    and l4: "arcLinkOk rg (ArcDwId1 b4)"
    by (rule collapseStage_upper)
  \<comment> \<open>\<^verbatim>\<open>if (a1->ArcDwId1) GetArc(a1->ArcDwId1)->ArcUpId1 = A0\<close>\<close>
  have "\<exists>rg'. (if ArcDwId1 b4 \<noteq> 0
                then modArc rg4 (ArcDwId1 b4) (\<lambda>a. a\<lparr>ArcUpId1 := A0\<rparr>) else Some rg4)
               = Some rg' \<and> collapseStage rg A0 A1 ?K (arcCore a1) rg'"
    by (rule stage_link_write [OF s4 l4 _ _ _ ne]) (simp_all add: arcCore_def okA0)
  then obtain rg5 where w5: "(if ArcDwId1 b4 \<noteq> 0
                          then modArc rg4 (ArcDwId1 b4) (\<lambda>a. a\<lparr>ArcUpId1 := A0\<rparr>)
                          else Some rg4) = Some rg5"
    and s5: "collapseStage rg A0 A1 ?K (arcCore a1) rg5"
    by blast
  from s5 obtain b5 where b5: "vtkReebGraphGetArc rg5 A1 = Some b5"
    and c5: "arcCore b5 = arcCore a1"
    by (rule collapseStage_upper)
  from s5 obtain c where cc: "vtkReebGraphGetArc rg5 A0 = Some c" "arcCore c = ?K"
    by (auto simp: collapseStage_def split: option.splits)
  from s5 have t5: "MainLabelTable rg5 = MainLabelTable rg" "MainNodeTable rg5 = MainNodeTable rg"
    "Number (MainArcTable rg5) = Number (MainArcTable rg)"
    "FreeZone (MainArcTable rg5) = FreeZone (MainArcTable rg)"
    by (simp_all add: collapseStage_def)
  have n5: "NodeId1 b5 = NodeId1 a1" using c5 unfolding arcCore_def by blast
  have nu5: "vtkReebGraphGetNode rg5 (NodeId1 b5) = Some nu"
    using nu by (simp add: n5 GetNode_same_table [OF t5(2)])
  \<comment> \<open>\<^verbatim>\<open>if (GetNode(a1->NodeId1)->ArcDownId == A1) GetNode(a1->NodeId1)->ArcDownId = A0\<close>\<close>
  define rg6 where "rg6 = (if ArcDownId nu = A1
                            then putNode rg5 (NodeId1 b5) (nu\<lparr>ArcDownId := A0\<rparr>) else rg5)"
  have w6: "(if ArcDownId nu = A1
             then modNode rg5 (NodeId1 b5) (\<lambda>n. n\<lparr>ArcDownId := A0\<rparr>)
             else Some rg5) = Some rg6"
    by (simp add: rg6_def modNode_def nu5)
  have t6: "MainLabelTable rg6 = MainLabelTable rg5" "MainArcTable rg6 = MainArcTable rg5"
    "Number (MainNodeTable rg6) = Number (MainNodeTable rg5)"
    "FreeZone (MainNodeTable rg6) = FreeZone (MainNodeTable rg5)"
    and v6: "\<And>M. (vtkReebGraphGetNode rg6 M = None) = (vtkReebGraphGetNode rg5 M = None)"
    by (simp_all add: rg6_def)
  have run: "collapseArcs rg A0 A1 = Some rg6"
    by (simp add: collapseArcs_def a1 w1 b1 w2 b2 w3 b3 w4 b4 w5 b5 nu5 w6)
  have g6: "\<And>B. vtkReebGraphGetArc rg6 B = vtkReebGraphGetArc rg5 B"
    by (rule GetArc_same_table) (rule t6)
  have v: "\<And>M. (vtkReebGraphGetNode rg6 M = None) = (vtkReebGraphGetNode rg M = None)"
    by (simp add: v6 GetNode_same_table [OF t5(2)])
  show ?thesis
    using run t5 t6 v b5 c5 cc by (simp add: g6)
qed

subsection \<open>The example chain, collapsed at node 2\<close>

lemma chain_label1: "vtkReebGraphGetLabel chainGraph 1 =
   Some \<lparr>ArcId = 1, HPrev = 0, HNext = 0, label = 7, VPrev = 0, VNext = 2\<rparr>"
  by (simp add: vtkReebGraphGetLabel_def chainGraph_def deref_def inBuffer_def)

lemma chain_collapse: "vtkReebGraphVertexCollapse chainGraph 2 = Some collapsedChain"
  by (simp add: vtkReebGraphVertexCollapse_def collapseArcs_def collapseLabels_step
      collapseLabels_null collapseLabelStep_def
      vtkReebGraphDeleteLabel_def vtkReebGraphClearLabel_def
      vtkReebGraphDeleteArc_def vtkReebGraphClearArc_def
      vtkReebGraphDeleteNode_def vtkReebGraphClearNode_def
      modArc_def modNode_def modLabel_def putArc_def putNode_def putLabel_def
      vtkReebGraphGetArc_def vtkReebGraphGetNode_def vtkReebGraphGetLabel_def
      deref_def inBuffer_def chainGraph_def collapsedChain_def numeral_2_eq_2 Let_def)

lemma collapsed_label2: "vtkReebGraphGetLabel collapsedChain 2 =
   Some \<lparr>ArcId = 0, HPrev = 0, HNext = - 2, label = 7, VPrev = 1, VNext = 0\<rparr>"
  by (simp add: vtkReebGraphGetLabel_def collapsedChain_def deref_def inBuffer_def)

lemma collapsed_label1: "vtkReebGraphGetLabel collapsedChain 1 =
   Some \<lparr>ArcId = 1, HPrev = 0, HNext = 0, label = 7, VPrev = 0, VNext = 0\<rparr>"
  by (simp add: vtkReebGraphGetLabel_def collapsedChain_def deref_def inBuffer_def)

lemma collapsed_arc1: "vtkReebGraphGetArc collapsedChain 1 =
   Some \<lparr>NodeId0 = 1, ArcUpId0 = 0, ArcDwId0 = 0, NodeId1 = 3, ArcUpId1 = 0, ArcDwId1 = 0,
          LabelId0 = 1, LabelId1 = 1\<rparr>"
  by (simp add: vtkReebGraphGetArc_def collapsedChain_def deref_def inBuffer_def)

text \<open>
  Claim C2, as stated, at a concrete input. The claim has the labels of the upper arc
  survive the collapse, attached to the lower arc. In \<open>chainGraph\<close> node 2 has the
  lower arc 1 (with label 1) and the upper arc 2 (with label 2), and the graph holds two
  labels. After \<^verbatim>\<open>vtkReebGraphVertexCollapse\<close> at node 2, label 2 is cleared and is
  the head of the free list, one label is left, and the chain of arc 1 is the label 1
  alone, as before: label 2 has not been moved to arc 1.
\<close>

theorem VertexCollapse_labels_not_transferred_counterexample:
  "vtkReebGraphGetArc chainGraph 2 =
     Some \<lparr>NodeId0 = 2, ArcUpId0 = 0, ArcDwId0 = 0, NodeId1 = 3, ArcUpId1 = 0, ArcDwId1 = 0,
           LabelId0 = 2, LabelId1 = 2\<rparr> \<and>
   vtkReebGraphIsLabelCleared chainGraph 2 = Some False \<and>
   Number (MainLabelTable chainGraph) = 2 \<and>
   vtkReebGraphVertexCollapse chainGraph 2 = Some collapsedChain \<and>
   vtkReebGraphIsLabelCleared collapsedChain 2 = Some True \<and>
   Number (MainLabelTable collapsedChain) = 1 \<and>
   FreeZone (MainLabelTable collapsedChain) = 2 \<and>
   map_option LabelId0 (vtkReebGraphGetArc collapsedChain 1) = Some 1 \<and>
   map_option LabelId1 (vtkReebGraphGetArc collapsedChain 1) = Some 1 \<and>
   map_option HNext (vtkReebGraphGetLabel collapsedChain 1) = Some 0 \<and>
   hchain collapsedChain 1 [1] \<and>
   \<not> hchain collapsedChain 1 [1, 2]"
  by (simp add: chain_arc2 chain_collapse vtkReebGraphIsLabelCleared_def chain_label2
      collapsed_label1 collapsed_label2 collapsed_arc1)
     (simp add: chainGraph_def collapsedChain_def)

text \<open>
  Claim C2, amended. Let \<open>N\<close> be a node with a lower arc \<open>a0\<close> and a different upper
  arc \<open>a1\<close>, the sibling links of \<open>a1\<close> null or addressable, the upper end of \<open>a1\<close>
  addressable, and \<open>ls\<close> the chain of distinct labels of \<open>a1\<close>, with vertical links that
  are null or addressable. Then \<^verbatim>\<open>vtkReebGraphVertexCollapse\<close> returns; the lower
  arc keeps its lower end and its own label chain and gets the upper end of \<open>a1\<close>; the
  upper arc and the node are cleared and head their free lists; every label of \<open>ls\<close>
  is cleared (deleted, not moved to the lower arc) and no other label is; the three
  counts go down by the number of labels of \<open>ls\<close>, by one and by one; and, when the
  vertical neighbours of \<open>ls\<close> lie outside \<open>ls\<close> and are not shared, every vertical
  chain is closed over the label it lost.
\<close>

theorem VertexCollapse_effect:
  assumes n: "vtkReebGraphGetNode rg N = Some n"
    and a0: "vtkReebGraphGetArc rg (ArcDownId n) = Some a0"
    and a1: "vtkReebGraphGetArc rg (ArcUpId n) = Some a1"
    and ne: "ArcDownId n \<noteq> ArcUpId n"
    and up: "arcLinkOk rg (ArcUpId1 a1)" and dw: "arcLinkOk rg (ArcDwId1 a1)"
    and nu: "vtkReebGraphGetNode rg (NodeId1 a1) = Some nu"
    and ch: "hchain rg (LabelId0 a1) ls" and di: "distinct ls" and vl: "vlinksOk rg ls"
  shows "\<exists>rg'. vtkReebGraphVertexCollapse rg N = Some rg' \<and>
           map_option NodeId0 (vtkReebGraphGetArc rg' (ArcDownId n)) = Some (NodeId0 a0) \<and>
           map_option NodeId1 (vtkReebGraphGetArc rg' (ArcDownId n)) = Some (NodeId1 a1) \<and>
           map_option LabelId0 (vtkReebGraphGetArc rg' (ArcDownId n)) = Some (LabelId0 a0) \<and>
           map_option LabelId1 (vtkReebGraphGetArc rg' (ArcDownId n)) = Some (LabelId1 a0) \<and>
           vtkReebGraphIsArcCleared rg' (ArcUpId n) = Some True \<and>
           vtkReebGraphIsNodeCleared rg' N = Some True \<and>
           labelsCleared rg' ls \<and>
           (\<forall>M. M \<notin> set ls \<longrightarrow>
                map_option HNext (vtkReebGraphGetLabel rg' M) =
                map_option HNext (vtkReebGraphGetLabel rg M)) \<and>
           (vneighboursOutside rg ls \<and> vneighboursDistinct rg ls \<longrightarrow> rethreaded rg rg' ls) \<and>
           Number (MainLabelTable rg') = Number (MainLabelTable rg) - int (length ls) \<and>
           Number (MainArcTable rg') = Number (MainArcTable rg) - 1 \<and>
           Number (MainNodeTable rg') = Number (MainNodeTable rg) - 1 \<and>
           FreeZone (MainArcTable rg') = ArcUpId n \<and>
           FreeZone (MainNodeTable rg') = N"
proof -
  let ?A0 = "ArcDownId n" and ?A1 = "ArcUpId n"
  from collapseArcs_effect [OF a0 a1 ne up dw nu]
  obtain rg6 b c where r6: "collapseArcs rg ?A0 ?A1 = Some rg6"
    and t6: "MainLabelTable rg6 = MainLabelTable rg"
      "Number (MainArcTable rg6) = Number (MainArcTable rg)"
      "Number (MainNodeTable rg6) = Number (MainNodeTable rg)"
    and v6: "\<And>M. (vtkReebGraphGetNode rg6 M = None) = (vtkReebGraphGetNode rg M = None)"
    and b: "vtkReebGraphGetArc rg6 ?A1 = Some b" "arcCore b = arcCore a1"
    and c: "vtkReebGraphGetArc rg6 ?A0 = Some c"
      "arcCore c = (NodeId0 a0, NodeId1 a1, LabelId0 a0, LabelId1 a0)"
    by blast
  have l6: "\<And>M. vtkReebGraphGetLabel rg6 M = vtkReebGraphGetLabel rg M"
    by (rule GetLabel_same_table) (rule t6)
  have lb: "LabelId0 b = LabelId0 a1" using b(2) unfolding arcCore_def by blast
  have ch6: "hchain rg6 (LabelId0 b) ls"
  proof -
    have "hchain rg6 (LabelId0 a1) ls = hchain rg (LabelId0 a1) ls"
      by (rule hchain_cong) (simp add: l6)
    with ch lb show ?thesis by simp
  qed
  have "\<And>v. labelLinkOk rg6 v = labelLinkOk rg v"
    by (simp add: labelLinkOk_def l6)
  with vl have vl6: "vlinksOk rg6 ls"
    by (auto simp: vlinksOk_def l6 list_all_iff split: option.splits)
  from collapseLabels_chain [OF ch6 di vl6]
  obtain rg7 where r7: "collapseLabels rg6 (LabelId0 b) = Some rg7"
    and t7: "MainArcTable rg7 = MainArcTable rg6" "MainNodeTable rg7 = MainNodeTable rg6"
      "Number (MainLabelTable rg7) = Number (MainLabelTable rg6) - int (length ls)"
    and h7: "\<And>M. map_option HNext (vtkReebGraphGetLabel rg7 M) =
                  (if M \<in> set ls then Some (- 2)
                   else map_option HNext (vtkReebGraphGetLabel rg6 M))"
    by blast
  have g7: "\<And>B. vtkReebGraphGetArc rg7 B = vtkReebGraphGetArc rg6 B"
    by (rule GetArc_same_table) (rule t7)
  have b7: "vtkReebGraphGetArc rg7 ?A1 = Some b" by (simp add: g7 b)
  from DeleteArc_effect [OF b7]
  obtain rg8 where r8: "vtkReebGraphDeleteArc rg7 ?A1 = Some rg8"
    and t8: "MainLabelTable rg8 = MainLabelTable rg7" "MainNodeTable rg8 = MainNodeTable rg7"
      "Number (MainArcTable rg8) = Number (MainArcTable rg7) - 1"
      "FreeZone (MainArcTable rg8) = ?A1"
    and g8: "\<And>B. vtkReebGraphGetArc rg8 B =
                  (if B = ?A1
                   then Some (b\<lparr>LabelId1 := - 2, LabelId0 := FreeZone (MainArcTable rg7)\<rparr>)
                   else vtkReebGraphGetArc rg7 B)"
    by blast
  have n8: "\<And>M. vtkReebGraphGetNode rg8 M = vtkReebGraphGetNode rg6 M"
    by (rule GetNode_same_table) (simp add: t8 t7)
  from n v6 [of N] obtain n6 where n6: "vtkReebGraphGetNode rg8 N = Some n6"
    by (cases "vtkReebGraphGetNode rg6 N") (auto simp: n8)
  from DeleteNode_effect [OF n6]
  obtain rg9 where r9: "vtkReebGraphDeleteNode rg8 N = Some rg9"
    and t9: "MainLabelTable rg9 = MainLabelTable rg8" "MainArcTable rg9 = MainArcTable rg8"
      "Number (MainNodeTable rg9) = Number (MainNodeTable rg8) - 1"
      "FreeZone (MainNodeTable rg9) = N"
    and g9: "\<And>M. vtkReebGraphGetNode rg9 M =
                  (if M = N
                   then Some (n6\<lparr>ArcUpId := - 2, ArcDownId := FreeZone (MainNodeTable rg8)\<rparr>)
                   else vtkReebGraphGetNode rg8 M)"
    by blast
  have run: "vtkReebGraphVertexCollapse rg N = Some rg9"
    by (simp add: vtkReebGraphVertexCollapse_def n r6 b(1) r7 r8 r9)
  have a9: "\<And>B. vtkReebGraphGetArc rg9 B = vtkReebGraphGetArc rg8 B"
    by (rule GetArc_same_table) (rule t9)
  have l9: "\<And>M. vtkReebGraphGetLabel rg9 M = vtkReebGraphGetLabel rg7 M"
    by (rule GetLabel_same_table) (simp add: t9 t8)
  have low: "vtkReebGraphGetArc rg9 ?A0 = Some c"
    using ne by (simp add: a9 g8 g7 c(1))
  have core: "NodeId0 c = NodeId0 a0" "NodeId1 c = NodeId1 a1" "LabelId0 c = LabelId0 a0"
    "LabelId1 c = LabelId1 a0"
    using c(2) unfolding arcCore_def by blast+
  have upc: "vtkReebGraphIsArcCleared rg9 ?A1 = Some True"
    by (simp add: vtkReebGraphIsArcCleared_def a9 g8)
  have nc: "vtkReebGraphIsNodeCleared rg9 N = Some True"
    by (simp add: vtkReebGraphIsNodeCleared_def g9)
  have lc: "labelsCleared rg9 ls"
    unfolding labelsCleared_def list_all_iff
  proof
    fix x assume "x \<in> set ls"
    then have "map_option HNext (vtkReebGraphGetLabel rg9 x) = Some (- 2)"
      by (simp add: l9 h7)
    then show "vtkReebGraphIsLabelCleared rg9 x = Some True"
      by (auto simp: vtkReebGraphIsLabelCleared_def)
  qed
  have keep: "\<forall>M. M \<notin> set ls \<longrightarrow>
                map_option HNext (vtkReebGraphGetLabel rg9 M) =
                map_option HNext (vtkReebGraphGetLabel rg M)"
    by (simp add: l9 h7 l6)
  have re: "rethreaded rg rg9 ls" if w: "vneighboursOutside rg ls \<and> vneighboursDistinct rg ls"
  proof -
    have e6: "vprevOf rg6 = vprevOf rg" "vnextOf rg6 = vnextOf rg"
      by (simp_all add: fun_eq_iff vprevOf_def vnextOf_def l6)
    have e9: "vprevOf rg9 = vprevOf rg7" "vnextOf rg9 = vnextOf rg7"
      by (simp_all add: fun_eq_iff vprevOf_def vnextOf_def l9)
    from w have o6: "vneighboursOutside rg6 ls" and d6: "vneighboursDistinct rg6 ls"
      by (simp_all add: vneighboursOutside_def vneighboursDistinct_def e6)
    from collapseLabels_rethread [OF ch6 di vl6 o6 d6 r7]
    have "rethreaded rg6 rg7 ls" by blast
    then show ?thesis
      by (simp add: rethreaded_def e6 e9)
  qed
  have nums: "Number (MainLabelTable rg9) = Number (MainLabelTable rg) - int (length ls)"
    "Number (MainArcTable rg9) = Number (MainArcTable rg) - 1"
    "Number (MainNodeTable rg9) = Number (MainNodeTable rg) - 1"
    "FreeZone (MainArcTable rg9) = ?A1" "FreeZone (MainNodeTable rg9) = N"
    by (simp_all add: t9 t8 t7 t6)
  show ?thesis
    using run low core upc nc lc keep re nums by simp
qed

theorem VertexCollapse_effect_witness:
  "vtkReebGraphGetNode chainGraph 2 \<noteq> None \<and>
   hchain chainGraph 2 [2] \<and> distinct [2::int] \<and> vlinksOk chainGraph [2] \<and>
   vneighboursOutside chainGraph [2] \<and> vneighboursDistinct chainGraph [2] \<and>
   (\<exists>rg'. vtkReebGraphVertexCollapse chainGraph 2 = Some rg' \<and>
          map_option NodeId0 (vtkReebGraphGetArc rg' 1) = Some 1 \<and>
          map_option NodeId1 (vtkReebGraphGetArc rg' 1) = Some 3 \<and>
          map_option LabelId0 (vtkReebGraphGetArc rg' 1) = Some 1 \<and>
          vtkReebGraphIsArcCleared rg' 2 = Some True \<and>
          vtkReebGraphIsNodeCleared rg' 2 = Some True \<and>
          labelsCleared rg' [2] \<and>
          rethreaded chainGraph rg' [2] \<and>
          Number (MainLabelTable rg') = 1 \<and>
          Number (MainArcTable rg') = 1 \<and>
          Number (MainNodeTable rg') = 2)"
proof -
  let ?n = "\<lparr>VertexId = 1, Value = 1, ArcDownId = 1, ArcUpId = 2,
             IsFinalized = True, IsCritical = False\<rparr>"
  let ?a0 = "\<lparr>NodeId0 = 1, ArcUpId0 = 0, ArcDwId0 = 0, NodeId1 = 2, ArcUpId1 = 0, ArcDwId1 = 0,
          LabelId0 = 1, LabelId1 = 1\<rparr>"
  let ?a1 = "\<lparr>NodeId0 = 2, ArcUpId0 = 0, ArcDwId0 = 0, NodeId1 = 3, ArcUpId1 = 0, ArcDwId1 = 0,
          LabelId0 = 2, LabelId1 = 2\<rparr>"
  have a0: "vtkReebGraphGetArc chainGraph (ArcDownId ?n) = Some ?a0"
    and a1: "vtkReebGraphGetArc chainGraph (ArcUpId ?n) = Some ?a1"
    by (simp_all add: chain_arc1 chain_arc2)
  have ne: "ArcDownId ?n \<noteq> ArcUpId ?n" by simp
  have up: "arcLinkOk chainGraph (ArcUpId1 ?a1)" and dw: "arcLinkOk chainGraph (ArcDwId1 ?a1)"
    by (simp_all add: arcLinkOk_def)
  have nu: "vtkReebGraphGetNode chainGraph (NodeId1 ?a1) =
              Some \<lparr>VertexId = 2, Value = 2, ArcDownId = 2, ArcUpId = 0,
                    IsFinalized = True, IsCritical = True\<rparr>"
    by (simp add: chain_node3)
  have ch: "hchain chainGraph (LabelId0 ?a1) [2]"
    by (simp add: chain_label2)
  have di: "distinct [2::int]" by simp
  have vl: "vlinksOk chainGraph [2]"
    by (simp add: vlinksOk_def chain_label2 labelLinkOk_def chain_label1)
  have vo: "vneighboursOutside chainGraph [2]" and vd: "vneighboursDistinct chainGraph [2]"
    by (simp_all add: vneighboursOutside_def vneighboursDistinct_def vprevOf_def vnextOf_def
        chain_label2)
  have nums: "Number (MainNodeTable chainGraph) = 3" "Number (MainArcTable chainGraph) = 2"
    "Number (MainLabelTable chainGraph) = 2"
    by (simp_all add: chainGraph_def)
  from VertexCollapse_effect [OF chain_node2 a0 a1 ne up dw nu ch di vl] ch vl vo vd chain_node2
  show ?thesis
    by (simp add: nums) blast
qed

end
